theory Spec2Isabelle
  imports Complex_Main "HOL-Library.Sublist" "HOL-Library.Log_Nat"
begin

section \<open>Python values used by \<open>app.py\<close>\<close>

subsection \<open>Strings\<close>

text \<open>
  A Python \<open>str\<close> is modelled by the list of the bytes of its UTF-8 encoding. All keywords
  that \<open>app.py\<close> searches for are ASCII, and no non-ASCII character lowercases to a
  sequence that can complete one of them, so \<open>str.lower\<close> is modelled on the ASCII
  letters \<open>A\<close> .. \<open>Z\<close> (codes 65 .. 90) and leaves every other byte as it is.
\<close>

definition lower_char :: "char \<Rightarrow> char" where
  "lower_char c =
     (let n = (of_char c :: nat) in if 65 \<le> n \<and> n \<le> 90 then char_of (n + 32) else c)"

definition lower :: "string \<Rightarrow> string" where
  "lower s = map lower_char s"

text \<open>\<open>kw in s\<close> on strings: \<open>kw\<close> occurs in \<open>s\<close> as a contiguous substring.\<close>

fun str_in :: "string \<Rightarrow> string \<Rightarrow> bool" where
  "str_in kw [] = (kw = [])"
| "str_in kw (c # cs) = (prefix kw (c # cs) \<or> str_in kw cs)"

text \<open>\<open>any(keyword in s for keyword in keywords)\<close>.\<close>

definition any_in :: "string list \<Rightarrow> string \<Rightarrow> bool" where
  "any_in keywords s = list_ex (\<lambda>keyword. str_in keyword s) keywords"

subsection \<open>Integers as text\<close>

definition digit :: "nat \<Rightarrow> char" where
  "digit d = char_of (48 + d)"

text \<open>\<open>str(n)\<close> for a non-negative integer.\<close>

function str_nat :: "nat \<Rightarrow> string" where
  "str_nat n = (if n < 10 then [digit n] else str_nat (n div 10) @ [digit (n mod 10)])"
  by pat_completeness auto
termination
  by (relation "measure (\<lambda>n. n)") auto

text \<open>\<open>f"{n:,}"\<close>: groups of three digits separated by commas.\<close>

function group_thousands :: "nat \<Rightarrow> string" where
  "group_thousands n =
     (if n < 1000 then str_nat n
      else group_thousands (n div 1000) @ '','' @
           [digit (n mod 1000 div 100), digit (n mod 100 div 10), digit (n mod 10)])"
  by pat_completeness auto
termination
  by (relation "measure (\<lambda>n. n)") auto

subsection \<open>Floats\<close>

text \<open>
  A Python \<open>float\<close> is an IEEE double. A double is modelled by the rational number it
  denotes. \<open>to_float x\<close> rounds a non-negative rational to 53 significant bits, ties to
  even; this is what a float literal and the true division \<open>w / h\<close> of two integers
  compute as long as the result is a normal double (\<open>2\<^sup>-\<^sup>1\<^sup>0\<^sup>2\<^sup>2 \<le> x < 2\<^sup>1\<^sup>0\<^sup>2\<^sup>4\<close>), which
  holds for every quotient of two image dimensions below \<open>2\<^sup>1\<^sup>0\<^sup>2\<^sup>2\<close>.
\<close>

definition round_half_even :: "rat \<Rightarrow> int" where
  "round_half_even x =
     (let f = \<lfloor>x\<rfloor>; d = x - of_int f in
      if d < 1 / 2 then f else if 1 / 2 < d then f + 1 else if even f then f else f + 1)"

text \<open>\<open>ilog2 x\<close> is the exponent \<open>e\<close> with \<open>2\<^sup>e \<le> x < 2\<^sup>e\<^sup>+\<^sup>1\<close>, for \<open>x > 0\<close>.\<close>

definition ilog2 :: "rat \<Rightarrow> int" where
  "ilog2 x =
     (let (p, q) = quotient_of x; d = bitlen p - bitlen q in
      if 2 powi d \<le> x then d else d - 1)"

definition to_float :: "rat \<Rightarrow> rat" where
  "to_float x =
     (if x \<le> 0 then 0
      else let u = 2 powi (ilog2 x - 52) in of_int (round_half_even (x / u)) * u)"

text \<open>\<open>w / h\<close> for non-negative integers \<open>w\<close> and \<open>h > 0\<close>.\<close>

definition true_div :: "nat \<Rightarrow> nat \<Rightarrow> rat" where
  "true_div w h = to_float (of_nat w / of_nat h)"

text \<open>\<open>f"{x:.2f}"\<close> for a non-negative float: two decimals, correctly rounded, ties to even.\<close>

definition format_2f :: "rat \<Rightarrow> string" where
  "format_2f x =
     (let n = nat (round_half_even (x * 100)) in
      str_nat (n div 100) @ ''.'' @ [digit (n mod 100 div 10), digit (n mod 10)])"

section \<open>The image\<close>

text \<open>
  The attributes of a PIL image that \<open>app.py\<close> reads: \<open>image.size\<close> (width and height,
  which are never negative), \<open>image.mode\<close>, \<open>image.format\<close> (\<open>None\<close> for an image that
  was not read from a file) and \<open>image.bits\<close> (\<open>None\<close> stands for an image without that
  attribute). The last field is the pixel data: \<open>app.py\<close> hands it to the remote service,
  to \<open>image.save\<close> and to \<open>ImageEnhance\<close>, and never reads it itself.
\<close>

record image =
  img_size :: "nat \<times> nat"
  mode :: string
  format :: "string option"
  bits :: "nat option"
  pixel_data :: "nat list"

text \<open>
  The images that \<open>main\<close> passes to \<open>analyze_image\<close> (lines 878 to 886) come from the image
  library: from \<open>Image.open\<close>, or from \<open>Image.new\<close> and \<open>convert\<close>. An image made by
  \<open>Image.new\<close> or \<open>convert\<close> has no format and no attribute \<open>bits\<close>. An image read by
  \<open>Image.open\<close> has the format of the file, and whether it has the attribute \<open>bits\<close>, and
  with which value, is decided by the library's reader for that format. The library is not
  part of \<open>app.py\<close>, so what its readers do is the parameter \<open>reader_bits\<close>.
\<close>

definition from_main :: "(string \<Rightarrow> nat option) \<Rightarrow> image \<Rightarrow> bool" where
  "from_main reader_bits img =
     (case format img of
        None \<Rightarrow> bits img = None
      | Some f \<Rightarrow> bits img = reader_bits f)"

section \<open>\<open>detect_sequence_diagram\<close>\<close>

definition seq_keywords :: "string list" where
  "seq_keywords =
     [''sequence'', ''seq'', ''interaction'', ''collaboration'', ''message flow'', ''uml'',
      ''system flow'', ''process flow'']"

text \<open>\<open>aspect_ratio = width / height if height > 0 else 1\<close>\<close>

definition aspect_ratio :: "nat \<Rightarrow> nat \<Rightarrow> rat" where
  "aspect_ratio width height = (if height > 0 then true_div width height else 1)"

definition detect_sequence_diagram :: "image \<Rightarrow> string option \<Rightarrow> bool \<times> string option" where
  "detect_sequence_diagram img file_name =
     (let file_name_lower = (case file_name of None \<Rightarrow> [] | Some n \<Rightarrow> lower n) in
      if any_in seq_keywords file_name_lower then
        (True, Some ''Filename suggests sequence diagram'')
      else
        let (width, height) = img_size img in
        if aspect_ratio width height > to_float (15 / 10) \<and> height > 200 then
          (True, Some ''Wide format typical of sequence diagrams'')
        else if aspect_ratio width height > to_float (12 / 10) \<and> height > 150 then
          (True, Some ''Format suggests technical diagram'')
        else (False, None))"

section \<open>The world outside \<open>app.py\<close>\<close>

text \<open>
  What the remote service and the image library do during one call of \<open>analyze_image\<close>:
  \<^item> \<open>generate_content\<close>: the answer of the remote service to a call
    \<open>model.generate_content([prompt, image])\<close> followed by \<open>response.text\<close>, given all
    calls made so far (the last one is the call being answered): either a text, or an
    exception with its message \<open>str(e)\<close>;
  \<^item> \<open>image_save\<close>: the message of the exception that \<open>image.save(..., format='PNG')\<close>
    raises for this image, or \<open>None\<close> when it succeeds;
  \<^item> \<open>enhance\<close>: the message of the exception that the two \<open>ImageEnhance\<close> calls raise
    for this image, or \<open>None\<close> when they succeed.
  Constructing \<open>genai.GenerativeModel(model_name)\<close> only records the name.
\<close>

datatype payload = PIL_image | PNG_bytes

record call =
  call_model :: string
  call_prompt :: string
  call_image :: payload

datatype response = Text string | Raises string

record env =
  generate_content :: "call list \<Rightarrow> response"
  image_save :: "string option"
  enhance :: "string option"

text \<open>The messages shown through \<open>st.error\<close>, \<open>st.info\<close> and \<open>st.warning\<close>.\<close>

datatype ui_msg = St_error string | St_info string | St_warning string

section \<open>\<open>analyze_sequence_diagram\<close>\<close>

text \<open>
  The function returns the text, or \<open>None\<close> after showing an error when the image
  enhancement raised. It also gives back the messages it has shown.
\<close>

definition analyze_sequence_diagram ::
  "env \<Rightarrow> image \<Rightarrow> string \<Rightarrow> string option \<Rightarrow> ui_msg list \<times> string option" where
  "analyze_sequence_diagram E img prompt file_name =
     (case enhance E of
        Some e \<Rightarrow> ([St_error (''Error analyzing sequence diagram: '' @ e)], None)
      | None \<Rightarrow>
          let (width, height) = img_size img in
          ([], Some (
        ''## '' @ [CHR 0xF0, CHR 0x9F, CHR 0x93, CHR 0x8B] @ '' Sequence Diagram Analysis\<newline>'' @
        ''\<newline>'' @
        ''### '' @ [CHR 0xF0, CHR 0x9F, CHR 0x94, CHR 0x8D] @ '' **Diagram Overview**\<newline>'' @
        ''This appears to be a **UML Sequence Diagram**. Sequence diagrams show object interactions over time, with messages passed between objects.\<newline>'' @
        ''\<newline>'' @
        ''### '' @ [CHR 0xF0, CHR 0x9F, CHR 0x93, CHR 0x8A] @ '' **Technical Details**\<newline>'' @
        ''- **Image Size**: '' @
        str_nat width @
        '' '' @ [CHR 0xC3, CHR 0x97] @ '' '' @
        str_nat height @
        '' pixels\<newline>'' @
        ''- **Diagram Type**: UML Sequence Diagram\<newline>'' @
        ''- **Reading Direction**: Left to Right (participants), Top to Bottom (time flow)\<newline>'' @
        ''\<newline>'' @
        ''### '' @ [CHR 0xF0, CHR 0x9F, CHR 0x91, CHR 0xA5] @ '' **Participants/Lifelines**\<newline>'' @
        ''Sequence diagrams typically include:\<newline>'' @
        ''- **Actors**: External entities that interact with the system\<newline>'' @
        ''- **Objects/System Components**: Internal system parts\<newline>'' @
        ''- **Lifelines**: Vertical dashed lines showing object existence over time\<newline>'' @
        ''\<newline>'' @
        ''### '' @ [CHR 0xF0, CHR 0x9F, CHR 0x92, CHR 0xAC] @ '' **Communication Patterns**\<newline>'' @
        ''The diagram likely shows:\<newline>'' @
        ''- **Synchronous Messages**: Solid arrows with filled heads (blocking calls)\<newline>'' @
        ''- **Asynchronous Messages**: Open arrows (non-blocking calls)\<newline>'' @
        ''- **Return Messages**: Dashed lines with open arrows\<newline>'' @
        ''- **Self Messages**: Loops showing internal processing\<newline>'' @
        ''- **Creation Messages**: Messages that create new objects\<newline>'' @
        ''\<newline>'' @
        ''### '' @ [CHR 0xF0, CHR 0x9F, CHR 0x8E, CHR 0xAF] @ '' **Key Elements to Look For**\<newline>'' @
        ''1. **Participants** (at the top): Actors, objects, system boundaries\<newline>'' @
        ''2. **Lifelines** (vertical dashed lines): Object lifespans\<newline>'' @
        ''3. **Activation Boxes** (rectangles on lifelines): When object is active\<newline>'' @
        ''4. **Messages** (arrows): Communication between objects\<newline>'' @
        ''5. **Combined Fragments** (frames): Loops, conditions, alternatives\<newline>'' @
        ''6. **Notes** (cornered rectangles): Additional information\<newline>'' @
        ''\<newline>'' @
        ''### '' @ [CHR 0xF0, CHR 0x9F, CHR 0x93, CHR 0x9D] @ '' **Analysis Suggestions**\<newline>'' @
        ''To fully understand this sequence diagram:\<newline>'' @
        ''- **Identify all participants** - Who/what are the main actors?\<newline>'' @
        ''- **Follow message flow** - What triggers each interaction?\<newline>'' @
        ''- **Note timing** - What happens sequentially vs. in parallel?\<newline>'' @
        ''- **Look for patterns** - Request-response, queries, notifications\<newline>'' @
        ''\<newline>'' @
        ''### '' @ [CHR 0xE2, CHR 0x9A, CHR 0xA0, CHR 0xEF, CHR 0xB8, CHR 0x8F] @ '' **AI Enhancement Note**\<newline>'' @
        ''For detailed content analysis (specific text and messages), you need a Google AI API with vision capabilities. The current analysis identifies this as a sequence diagram based on visual patterns and provides framework understanding.\<newline>'' @
        ''\<newline>'' @
        ''### '' @ [CHR 0xF0, CHR 0x9F, CHR 0x94, CHR 0xA7] @ '' **Next Steps**\<newline>'' @
        ''1. If you have a vision-enabled API key, you'' @ [CHR 0x27] @ ''ll get specific text extraction\<newline>'' @
        ''2. Otherwise, you can manually extract text from the diagram using:\<newline>'' @
        ''   - Participant names (top of each lifeline)\<newline>'' @
        ''   - Message text (on/near arrows)\<newline>'' @
        ''   - Conditions and loops (in combined fragments)\<newline>'')))"

section \<open>\<open>analyze_image\<close>\<close>

text \<open>
  The prompt is a string: \<open>main\<close> passes the prompt that was selected or typed, and
  \<open>"Describe this image"\<close> when none was typed. The file name may be absent.
\<close>

subsection \<open>The prompt override\<close>

definition seq_prompt_keywords :: "string list" where
  "seq_prompt_keywords =
     [''sequence'', ''lifeline'', ''message'', ''participant'', ''actor'', ''interaction'',
      ''uml'', ''diagram'']"

definition prompt_suggests_seq :: "string \<Rightarrow> bool" where
  "prompt_suggests_seq prompt = any_in seq_prompt_keywords (lower prompt)"

text \<open>Lines 126 to 136: the classification after the prompt has been looked at.\<close>

definition classify :: "image \<Rightarrow> string \<Rightarrow> string option \<Rightarrow> bool \<times> string option" where
  "classify img prompt file_name =
     (let (is_sequence_diagram, reason) = detect_sequence_diagram img file_name in
      if prompt_suggests_seq prompt \<and> \<not> is_sequence_diagram then
        (True, Some ''User prompt suggests sequence diagram'')
      else (is_sequence_diagram, reason))"

subsection \<open>The remote-call loop\<close>

definition model_names_to_try :: "string list" where
  "model_names_to_try =
     [''models/gemini-2.5-flash'', ''models/gemini-2.5-pro'', ''models/gemini-2.0-flash-exp'',
      ''models/gemini-2.0-flash'', ''models/gemini-flash-latest'', ''models/gemini-pro-latest'']"

definition specialized_prompt :: string where
  "specialized_prompt =
     ''This is a UML sequence diagram. Please analyze it in detail and provide:\<newline>'' @
     ''1. All participants/actors in the diagram\<newline>'' @
     ''2. The sequence of messages between participants\<newline>'' @
     ''3. Any conditions, loops, or combined fragments\<newline>'' @
     ''4. The overall flow and purpose of the interaction\<newline>'' @
     ''5. Any return messages or synchronous/asynchronous calls\<newline>'' @
     ''Please be very specific about the text labels and message content.''"

text \<open>The texts stored in \<open>api_error\<close>.\<close>

definition quota_exceeded_text :: "string \<Rightarrow> string" where
  "quota_exceeded_text first_error =
          ''Google AI API quota exceeded. The free tier limit has been reached. Please:\<newline>'' @
          ''1. Wait for quota to reset (usually after some time)\<newline>'' @
          ''2. Check your billing at https://ai.dev/usage\<newline>'' @
          ''3. Consider upgrading to a paid plan\<newline>'' @
          ''\<newline>'' @
          ''Error: '' @
          first_error"

definition not_available_text :: "string \<Rightarrow> string" where
  "not_available_text model_name =
          ''Model '' @
          model_name @
          '' not available. Trying next model...''"

definition permission_denied_text :: string where
  "permission_denied_text =
          ''API key permission denied. Check if your API key has vision capabilities enabled at Google AI Studio.''"

definition error_with_model_text :: "string \<Rightarrow> string \<Rightarrow> string" where
  "error_with_model_text model_name first_error =
          ''Error with model '' @
          model_name @
          '': '' @
          first_error"

definition not_available_404_text :: "string \<Rightarrow> string" where
  "not_available_404_text model_name =
          ''Model '' @
          model_name @
          '' not available (404 error).''"

text \<open>The variables the loop changes, and the calls made so far.\<close>

record loop_state =
  api_error :: "string option"
  calls :: "call list"

text \<open>How one iteration of the loop ends.\<close>

datatype flow = Return string | Break | Continue

text \<open>The handler \<open>except Exception as second_error\<close>.\<close>

definition second_error_handler :: "string \<Rightarrow> string \<Rightarrow> loop_state \<Rightarrow> flow \<times> loop_state" where
  "second_error_handler model_name second_error st =
     (let error_msg = lower second_error in
      if str_in ''quota'' error_msg \<or> str_in ''limit'' error_msg then
        (Break, st\<lparr>api_error := Some (quota_exceeded_text second_error)\<rparr>)
      else if str_in ''404'' error_msg \<or> str_in ''not found'' error_msg then
        (Continue, st\<lparr>api_error := Some (not_available_404_text model_name)\<rparr>)
      else
        (Continue, st\<lparr>api_error := Some (error_with_model_text model_name second_error)\<rparr>))"

text \<open>The inner \<open>try\<close>: the image as PNG bytes.\<close>

definition second_attempt :: "env \<Rightarrow> string \<Rightarrow> string \<Rightarrow> loop_state \<Rightarrow> flow \<times> loop_state" where
  "second_attempt E sent_prompt model_name st =
     (case image_save E of
        Some second_error \<Rightarrow> second_error_handler model_name second_error st
      | None \<Rightarrow>
          (let st' = st\<lparr>calls := calls st @
                [\<lparr>call_model = model_name, call_prompt = sent_prompt, call_image = PNG_bytes\<rparr>]\<rparr>
           in (case generate_content E (calls st') of
                 Text t \<Rightarrow> (Return t, st')
               | Raises second_error \<Rightarrow> second_error_handler model_name second_error st')))"

text \<open>The body of \<open>for model_name in model_names_to_try\<close>.\<close>

definition try_model ::
  "env \<Rightarrow> bool \<Rightarrow> string \<Rightarrow> string \<Rightarrow> loop_state \<Rightarrow> flow \<times> loop_state" where
  "try_model E is_sequence_diagram prompt model_name st =
     (let sent_prompt = (if is_sequence_diagram then specialized_prompt else prompt);
          st' = st\<lparr>calls := calls st @
                [\<lparr>call_model = model_name, call_prompt = sent_prompt, call_image = PIL_image\<rparr>]\<rparr>
      in case generate_content E (calls st') of
           Text t \<Rightarrow> (Return t, st')
         | Raises first_error \<Rightarrow>
             let error_msg = lower first_error in
             if str_in ''quota'' error_msg \<or> str_in ''limit'' error_msg then
               (Break, st'\<lparr>api_error := Some (quota_exceeded_text first_error)\<rparr>)
             else if str_in ''404'' error_msg \<or> str_in ''not found'' error_msg then
               second_attempt E sent_prompt model_name (st'\<lparr>api_error := Some (not_available_text model_name)\<rparr>)
             else if str_in ''permission'' error_msg \<or> str_in ''forbidden'' error_msg then
               (Break, st'\<lparr>api_error := Some permission_denied_text\<rparr>)
             else
               second_attempt E sent_prompt model_name (st'\<lparr>api_error := Some (error_with_model_text model_name first_error)\<rparr>))"

text \<open>
  The loop over the candidates: the text that was returned, if any, and the state in
  which the loop was left.
\<close>

fun try_models ::
  "env \<Rightarrow> bool \<Rightarrow> string \<Rightarrow> string list \<Rightarrow> loop_state \<Rightarrow> string option \<times> loop_state" where
  "try_models E is_sequence_diagram prompt [] st = (None, st)"
| "try_models E is_sequence_diagram prompt (model_name # rest) st =
     (case try_model E is_sequence_diagram prompt model_name st of
        (Return t, st') \<Rightarrow> (Some t, st')
      | (Break, st') \<Rightarrow> (None, st')
      | (Continue, st') \<Rightarrow> try_models E is_sequence_diagram prompt rest st')"

subsection \<open>The messages after the loop\<close>

text \<open>\<open>api_error and ("quota" in api_error.lower() or "limit" in api_error.lower())\<close>\<close>

definition is_quota_error :: "string option \<Rightarrow> bool" where
  "is_quota_error err =
     (case err of
        None \<Rightarrow> False
      | Some e \<Rightarrow> e \<noteq> [] \<and> (str_in ''quota'' (lower e) \<or> str_in ''limit'' (lower e)))"

text \<open>\<open>api_error and ("permission" in api_error.lower() or "forbidden" in api_error.lower())\<close>\<close>

definition is_permission_error :: "string option \<Rightarrow> bool" where
  "is_permission_error err =
     (case err of
        None \<Rightarrow> False
      | Some e \<Rightarrow> e \<noteq> [] \<and> (str_in ''permission'' (lower e) \<or> str_in ''forbidden'' (lower e)))"

definition quota_messages :: "ui_msg list" where
  "quota_messages =
     [St_error ([CHR 0xF0, CHR 0x9F, CHR 0x9A, CHR 0xAB] @ '' Google AI API Quota Exceeded''),
      St_info ''The Google AI API has reached its free tier limit. Please:'',
      St_info ''1. **Wait for quota to reset** (usually within minutes/hours)'',
      St_info ''2. **Check your usage** at [AI Usage Dashboard](https://ai.dev/usage)'',
      St_info ''3. **Enable billing** if you need more quota'']"

definition permission_messages :: "ui_msg list" where
  "permission_messages =
     [St_error ([CHR 0xF0, CHR 0x9F, CHR 0x94, CHR 0x91] @ '' API Key Permission Issue''),
      St_info ''Your API key may not have vision capabilities enabled:'',
      St_info ''1. Check your key at [Google AI Studio](https://makersuite.google.com/app/apikey)'',
      St_info ''2. Ensure vision/image analysis is enabled'',
      St_info ''3. Try generating a new API key with proper permissions'']"

text \<open>
  Lines 217 to 244, up to the call of \<open>analyze_sequence_diagram\<close>; \<open>err\<close> is the value of
  \<open>api_error\<close> after the loop.
\<close>

definition fallback_messages :: "bool \<Rightarrow> string option \<Rightarrow> string option \<Rightarrow> ui_msg list" where
  "fallback_messages is_sequence_diagram reason err =
     (if is_sequence_diagram then
        (if is_quota_error err then quota_messages else []) @
        [St_warning (
        ''AI vision analysis not available. Detected sequence diagram ('' @
        (case reason of None \<Rightarrow> ''None'' | Some r \<Rightarrow> r) @
        ''). Providing sequence diagram analysis...'')]
      else if is_quota_error err then
        quota_messages @ [St_warning ''AI image analysis not available. Providing detailed image analysis...'']
      else if is_permission_error err then
        permission_messages @ [St_warning ''AI image analysis not available. Providing detailed image analysis...'']
      else
        [St_warning ''AI image analysis not available. Providing detailed image analysis...''])"

subsection \<open>The generic report\<close>

definition orientation :: "nat \<Rightarrow> nat \<Rightarrow> string" where
  "orientation width height =
     (if width > height then ''Landscape''
      else if height > width then ''Portrait''
      else ''Square'')"

definition mode_descriptions :: "(string \<times> string) list" where
  "mode_descriptions =
     [(''RGB'', ''Color image (Red, Green, Blue)''),
      (''RGBA'', ''Color image with transparency''),
      (''L'', ''Grayscale (Black and White)''),
      (''P'', ''Palette-based color''),
      (''CMYK'', ''CMYK color (for printing)''),
      (''HSV'', ''HSV color space'')]"

definition color_info :: "image \<Rightarrow> string" where
  "color_info img =
     (case map_of mode_descriptions (mode img) of
        Some d \<Rightarrow> d
      | None \<Rightarrow> ''Unknown mode: '' @ mode img)"

definition size_category :: "nat \<Rightarrow> string" where
  "size_category pixels =
     (if pixels < 640 * 480 then ''Small''
      else if pixels < 1920 * 1080 then ''Medium''
      else if pixels < 4 * 1024 * 1024 then ''Large''
      else ''Very Large'')"

definition likely_type :: "string option \<Rightarrow> string" where
  "likely_type file_name =
     (let file_ext_lower = (case file_name of None \<Rightarrow> [] | Some n \<Rightarrow> lower n) in
      if file_ext_lower \<in> set [''.jpg'', ''.jpeg'', ''.png'', ''.gif'', ''.bmp''] then
        ''Photograph or Digital Image''
      else if file_ext_lower \<in> set [''.svg'', ''.ico''] then ''Vector Graphic or Icon''
      else if file_ext_lower \<in> set [''.psd''] then ''Photoshop Document''
      else if file_ext_lower \<in> set [''.tiff'', ''.tif''] then ''Professional/High-Quality Image''
      else ''Image File'')"

definition recommendations :: "image \<Rightarrow> string list" where
  "recommendations img =
     (let (width, height) = img_size img in
      (if mode img = ''RGBA'' then [''Has transparent background'']
       else if mode img = ''L'' then [''Black and white image'']
       else if mode img = ''CMYK'' then [''Optimized for printing'']
       else []) @
      (if aspect_ratio width height > to_float (15 / 10) then [''Wide panoramic format'']
       else if aspect_ratio width height < to_float (7 / 10) then [''Tall vertical format'']
       else if to_float (9 / 10) \<le> aspect_ratio width height
               \<and> aspect_ratio width height \<le> to_float (11 / 10) then [''Square format'']
       else []))"

text \<open>\<open>image.format or 'Unknown'\<close>\<close>

definition format_or_unknown :: "image \<Rightarrow> string" where
  "format_or_unknown img =
     (case format img of None \<Rightarrow> ''Unknown'' | Some f \<Rightarrow> if f = [] then ''Unknown'' else f)"

definition compression :: "image \<Rightarrow> string" where
  "compression img =
     (if format img \<in> set [Some ''PNG'', Some ''BMP'', Some ''TIFF''] then ''Lossless''
      else ''Lossy'')"

text \<open>\<open>image.bits if hasattr(image, 'bits') and image.bits else 'Unknown'\<close>\<close>

definition bit_depth :: "image \<Rightarrow> string" where
  "bit_depth img =
     (case bits img of
        None \<Rightarrow> ''Unknown''
      | Some b \<Rightarrow> if b = 0 then ''Unknown'' else str_nat b)"

definition perfect_for :: "image \<Rightarrow> string" where
  "perfect_for img =
     (if format img = Some ''PNG'' then ''Web display and digital use''
      else if format img = Some ''JPEG'' then ''Photographs and images''
      else if format img \<in> set [Some ''TIFF'', Some ''BMP''] then ''High-quality prints''
      else ''General use'')"

definition aspect_ratio_use :: "nat \<Rightarrow> nat \<Rightarrow> string" where
  "aspect_ratio_use width height =
     (if aspect_ratio width height > to_float (15 / 10) then
        ''Great for wallpapers/wide displays''
      else if aspect_ratio width height < to_float (7 / 10) then ''Great for portraits/mobile''
      else ''Versatile square format'')"

text \<open>Lines 246 to 348: the text \<open>basic_analysis\<close> that is returned.\<close>

definition basic_analysis :: "image \<Rightarrow> string option \<Rightarrow> string" where
  "basic_analysis img file_name =
     (let (width, height) = img_size img;
          pixels = width * height in
        ''## '' @ [CHR 0xF0, CHR 0x9F, CHR 0x93, CHR 0x8A] @ '' Detailed Image Analysis\<newline>'' @
        ''\<newline>'' @
        ''### '' @ [CHR 0xF0, CHR 0x9F, CHR 0x93, CHR 0x90] @ '' **Technical Specifications**\<newline>'' @
        ''- **Dimensions**: '' @
        str_nat width @
        '' '' @ [CHR 0xC3, CHR 0x97] @ '' '' @
        str_nat height @
        '' pixels ('' @
        group_thousands pixels @
        '' total pixels)\<newline>'' @
        ''- **Aspect Ratio**: '' @
        format_2f (aspect_ratio width height) @
        '':1\<newline>'' @
        ''- **Orientation**: '' @
        orientation width height @
        ''\<newline>'' @
        ''- **Size Category**: '' @
        size_category pixels @
        ''\<newline>'' @
        ''- **File Format**: '' @
        format_or_unknown img @
        ''\<newline>'' @
        ''- **Color Mode**: '' @
        color_info img @
        ''\<newline>'' @
        ''\<newline>'' @
        ''### '' @ [CHR 0xF0, CHR 0x9F, CHR 0x8E, CHR 0xA8] @ '' **Image Characteristics**\<newline>'' @
        ''- **File Type**: '' @
        likely_type file_name @
        ''\<newline>'' @
        ''- **Compression**: '' @
        compression img @
        '' (typical for '' @
        (case format img of None \<Rightarrow> ''None'' | Some f \<Rightarrow> f) @
        '')\<newline>'' @
        ''- **Bit Depth**: '' @
        bit_depth img @
        ''\<newline>'' @
        ''\<newline>'' @
        ''### '' @ [CHR 0xF0, CHR 0x9F, CHR 0x92, CHR 0xA1] @ '' **Features & Recommendations**\<newline>'' @
        (if recommendations img \<noteq> [] then
           concat (map (\<lambda>rec. ''- '' @ [CHR 0xE2, CHR 0x9C, CHR 0x85] @ '' '' @
        rec @
        ''\<newline>'') (recommendations img))
         else ''- Standard image format\<newline>'') @
        ''\<newline>'' @
        ''### '' @ [CHR 0xF0, CHR 0x9F, CHR 0x94, CHR 0x8D] @ '' **Usage Suggestions**\<newline>'' @
        ''- Perfect for: '' @
        perfect_for img @
        ''\<newline>'' @
        ''- Best viewed at: '' @
        str_nat width @
        [CHR 0xC3, CHR 0x97] @
        str_nat height @
        '' pixels or smaller\<newline>'' @
        ''- Aspect ratio: '' @
        aspect_ratio_use width height @
        ''\<newline>'' @
        ''\<newline>'' @
        ''### '' @ [CHR 0xE2, CHR 0x9A, CHR 0xA0, CHR 0xEF, CHR 0xB8, CHR 0x8F] @ '' **AI Enhancement Note**\<newline>'' @
        ''To get AI-powered content analysis (what'' @ [CHR 0x27] @ ''s actually *in* the image), your Google API key needs vision capabilities. You can:\<newline>'' @
        ''1. Check your API key at [Google AI Studio](https://makersuite.google.com/app/apikey)\<newline>'' @
        ''2. Ensure vision/image analysis is enabled\<newline>'' @
        ''3. Try a different API key if available\<newline>'' @
        ''\<newline>'' @
        ''*This analysis provides technical information about your image file. For content-based analysis, please ensure proper API access.*'')"

subsection \<open>The whole function\<close>

text \<open>
  What one call of \<open>analyze_image\<close> does: the value it returns, the messages it shows and
  the remote calls it makes, in order.
\<close>

record outcome =
  returned :: "string option"
  shown :: "ui_msg list"
  attempted :: "call list"

definition analyze_image :: "env \<Rightarrow> image \<Rightarrow> string \<Rightarrow> string option \<Rightarrow> outcome" where
  "analyze_image E img prompt file_name =
     (let (is_sequence_diagram, reason) = classify img prompt file_name in
      case try_models E is_sequence_diagram prompt model_names_to_try
             \<lparr>api_error = None, calls = []\<rparr> of
        (Some t, st) \<Rightarrow> \<lparr>returned = Some t, shown = [], attempted = calls st\<rparr>
      | (None, st) \<Rightarrow>
          let msgs = fallback_messages is_sequence_diagram reason (api_error st) in
          if is_sequence_diagram then
            let (errs, r) = analyze_sequence_diagram E img prompt file_name in
            \<lparr>returned = r, shown = msgs @ errs, attempted = calls st\<rparr>
          else
            \<lparr>returned = Some (basic_analysis img file_name), shown = msgs,
             attempted = calls st\<rparr>)"

section \<open>Simulated runs\<close>

text \<open>
  Remote services and images on which the theorems below are tried out. The first service
  answers the first four calls with a 404 error and the fifth with a text: the first two
  candidates fail on both attempts and the third succeeds. The second service answers the
  first call with a quota error and would answer any later call with a text. The third
  answers every call that carries the image object with an internal error and every call
  that carries PNG bytes with a permission error. The fourth always answers 404, the
  fifth always answers with a permission error.
\<close>

definition fail_404_then_text :: env where
  "fail_404_then_text =
     \<lparr>generate_content =
        (\<lambda>cs. if length cs < 5 then Raises ''404 model not found'' else Text ''A cat on a sofa.''),
      image_save = None, enhance = None\<rparr>"

definition quota_then_text :: env where
  "quota_then_text =
     \<lparr>generate_content =
        (\<lambda>cs. if length cs < 2 then Raises ''429 Quota exceeded'' else Text ''A cat on a sofa.''),
      image_save = None, enhance = None\<rparr>"

definition permission_on_bytes :: env where
  "permission_on_bytes =
     \<lparr>generate_content =
        (\<lambda>cs. case call_image (last cs) of
                 PIL_image \<Rightarrow> Raises ''500 Internal error''
               | PNG_bytes \<Rightarrow> Raises ''403 Permission denied''),
      image_save = None, enhance = None\<rparr>"

definition uml_image :: image where
  "uml_image = \<lparr>img_size = (100, 100), mode = ''RGB'', format = Some ''PNG'',
                bits = None, pixel_data = []\<rparr>"

definition always_404 :: env where
  "always_404 =
     \<lparr>generate_content = (\<lambda>cs. Raises ''404 model not found''), image_save = None,
      enhance = None\<rparr>"

definition always_permission_denied :: env where
  "always_permission_denied =
     \<lparr>generate_content = (\<lambda>cs. Raises ''403 Permission denied''), image_save = None,
      enhance = None\<rparr>"

definition photo_image :: image where
  "photo_image = \<lparr>img_size = (100, 100), mode = ''RGB'', format = Some ''JPEG'',
                  bits = Some 8, pixel_data = []\<rparr>"

section \<open>Facts about strings\<close>

lemma str_in_sublist: "str_in kw s = sublist kw s"
  by (induction s) (auto simp: sublist_Cons_right)

lemma str_in_appendI1: "str_in kw s \<Longrightarrow> str_in kw (s @ t)"
  unfolding str_in_sublist sublist_def by (metis append_assoc)

lemma str_in_appendI2: "str_in kw t \<Longrightarrow> str_in kw (s @ t)"
  unfolding str_in_sublist sublist_def by (metis append_assoc)

lemma lower_append: "lower (s @ t) = lower s @ lower t"
  by (simp add: lower_def)

lemma str_in_here: "str_in (a @ b @ c) (a @ b @ c @ rest)"
  unfolding str_in_sublist by (metis append_assoc sublist_append_rightI)

lemma str_in_skip: "str_in x t \<Longrightarrow> str_in x (a @ t)"
  by (rule str_in_appendI2)

section \<open>Facts about floats\<close>

lemma round_half_even_ge: "of_int n \<le> x \<Longrightarrow> n \<le> round_half_even x"
  unfolding round_half_even_def Let_def
  by (auto simp: le_floor_iff) (smt (verit) le_floor_iff)+

lemma round_half_even_le: "x \<le> of_int n \<Longrightarrow> round_half_even x \<le> n"
proof -
  assume a: "x \<le> of_int n"
  have f: "\<lfloor>x\<rfloor> \<le> n" using a by (simp add: floor_le_iff) 
  show ?thesis
  proof (cases "\<lfloor>x\<rfloor> = n")
    case True
    then have "x - of_int \<lfloor>x\<rfloor> \<le> 0" using a by simp
    then show ?thesis unfolding round_half_even_def Let_def using True by auto
  next
    case False
    then have "\<lfloor>x\<rfloor> + 1 \<le> n" using f by simp
    then show ?thesis unfolding round_half_even_def Let_def by auto
  qed
qed

lemma round_half_even_le_half: "x < of_int n + 1 / 2 \<Longrightarrow> round_half_even x \<le> n"
proof -
  assume a: "x < of_int n + 1 / 2"
  then have "x < of_int (n + 1)" by simp
  then have f: "\<lfloor>x\<rfloor> < n + 1" using floor_less_iff by blast
  show ?thesis
  proof (cases "\<lfloor>x\<rfloor> = n")
    case True
    then have "x - of_int \<lfloor>x\<rfloor> < 1 / 2" using a by simp
    then show ?thesis unfolding round_half_even_def Let_def using True by auto
  next
    case False
    then have "\<lfloor>x\<rfloor> + 1 \<le> n" using f by simp
    then show ?thesis unfolding round_half_even_def Let_def by auto
  qed
qed

lemma round_half_even_ge_half: "of_int n + 1 / 2 < x \<Longrightarrow> n + 1 \<le> round_half_even x"
proof -
  assume a: "of_int n + 1 / 2 < x"
  then have "of_int n \<le> x" by simp
  then have f: "n \<le> \<lfloor>x\<rfloor>" using le_floor_iff by blast
  show ?thesis
  proof (cases "\<lfloor>x\<rfloor> = n")
    case True
    then have "1 / 2 < x - of_int \<lfloor>x\<rfloor>" using a by simp
    then show ?thesis unfolding round_half_even_def Let_def using True by auto
  next
    case False
    then have "n + 1 \<le> \<lfloor>x\<rfloor>" using f by simp
    then show ?thesis unfolding round_half_even_def Let_def by auto
  qed
qed

lemma quotient_of_pos:
  assumes "0 < x" "quotient_of x = (p, q)"
  shows "0 < p" "0 < q" "x = of_int p / of_int q"
  using assms quotient_of_denom_pos[of x p q] quotient_of_div[of x p q]
  by (auto simp: zero_less_divide_iff)

lemma ilog2_bounds:
  assumes "0 < x"
  shows "2 powi (ilog2 x) \<le> x" and "x < 2 powi (ilog2 x + 1)"
proof -
  obtain p q where pq: "quotient_of x = (p, q)" by (cases "quotient_of x")
  have p: "0 < p" and q: "0 < q" and x: "x = of_int p / of_int q"
    using quotient_of_pos[OF assms pq] by auto
  define d where "d = bitlen p - bitlen q"
  have bp: "2 ^ nat (bitlen p - 1) \<le> p" "p < 2 ^ nat (bitlen p)"
    using bitlen_bounds[OF p] by auto
  have bq: "2 ^ nat (bitlen q - 1) \<le> q" "q < 2 ^ nat (bitlen q)"
    using bitlen_bounds[OF q] by auto
  have lp: "1 \<le> bitlen p" and lq: "1 \<le> bitlen q"
    using p q by (auto simp: bitlen_alt_def)
  have P1: "(2::rat) powi (bitlen p - 1) \<le> of_int p"
  proof -
    have "(of_int (2 ^ nat (bitlen p - 1)) :: rat) \<le> of_int p"
      using bp(1) of_int_le_iff by blast
    then show ?thesis using lp by (simp add: power_int_def)
  qed
  have P2: "of_int p < (2::rat) powi (bitlen p)"
  proof -
    have "(of_int p :: rat) < of_int (2 ^ nat (bitlen p))"
      using bp(2) of_int_less_iff by blast
    then show ?thesis using lp by (simp add: power_int_def)
  qed
  have Q1: "(2::rat) powi (bitlen q - 1) \<le> of_int q"
  proof -
    have "(of_int (2 ^ nat (bitlen q - 1)) :: rat) \<le> of_int q"
      using bq(1) of_int_le_iff by blast
    then show ?thesis using lq by (simp add: power_int_def)
  qed
  have Q2: "of_int q < (2::rat) powi (bitlen q)"
  proof -
    have "(of_int q :: rat) < of_int (2 ^ nat (bitlen q))"
      using bq(2) of_int_less_iff by blast
    then show ?thesis using lq by (simp add: power_int_def)
  qed
  have qpos: "(0::rat) < of_int q" using q by simp
  have ppos: "(0::rat) < of_int p" using p by simp
  have lo: "(2::rat) powi (d - 1) \<le> x"
  proof -
    have "(2::rat) powi (d - 1) = 2 powi (bitlen p - 1) / 2 powi (bitlen q)"
      unfolding d_def by (simp add: power_int_diff)
    also have "\<dots> \<le> of_int p / 2 powi (bitlen q)"
      using P1 by (simp add: divide_right_mono)
    also have "\<dots> \<le> of_int p / of_int q"
      using Q2 qpos ppos by (simp add: frac_le)
    finally show ?thesis using x by simp
  qed
  have hi: "x < (2::rat) powi (d + 1)"
  proof -
    have "x = of_int p / of_int q" by (rule x)
    also have "\<dots> < 2 powi (bitlen p) / of_int q"
      using P2 qpos by (simp add: divide_strict_right_mono)
    also have "\<dots> \<le> 2 powi (bitlen p) / 2 powi (bitlen q - 1)"
      using Q1 by (simp add: frac_le)
    also have "\<dots> = (2::rat) powi (d + 1)"
      unfolding d_def by (simp add: power_int_diff[symmetric] algebra_simps)
    finally show ?thesis .
  qed
  have il: "ilog2 x = (if 2 powi d \<le> x then d else d - 1)"
    unfolding ilog2_def pq d_def by simp
  show "2 powi (ilog2 x) \<le> x" using il lo by auto
  show "x < 2 powi (ilog2 x + 1)" using il hi by auto
qed


lemma ilog2_unique:
  assumes "0 < x" "2 powi e \<le> x" "x < 2 powi (e + 1)"
  shows "ilog2 x = e"
proof (rule ccontr)
  assume ne: "ilog2 x \<noteq> e"
  note b = ilog2_bounds[OF assms(1)]
  show False
  proof (cases "ilog2 x < e")
    case True
    then have "(2::rat) powi (ilog2 x + 1) \<le> 2 powi e"
      by (intro power_int_increasing) auto
    then show False using b(2) assms(2) by linarith
  next
    case False
    then have "e + 1 \<le> ilog2 x" using ne by simp
    then have "(2::rat) powi (e + 1) \<le> 2 powi (ilog2 x)"
      by (intro power_int_increasing) auto
    then show False using b(1) assms(3) by linarith
  qed
qed

lemma to_float_unit:
  assumes "1 \<le> x" "x < 2"
  shows "to_float x = of_int (round_half_even (x * 2 ^ 52)) / 2 ^ 52"
proof -
  have "ilog2 x = 0" using assms by (intro ilog2_unique) auto
  then show ?thesis using assms by (simp add: to_float_def power_int_def field_simps)
qed

lemma to_float_lower:
  assumes "0 < x"
  shows "2 powi (ilog2 x) \<le> to_float x"
proof -
  define e where "e = ilog2 x"
  define u where "u = (2::rat) powi (e - 52)"
  have u: "0 < u" unfolding u_def by (simp add: zero_less_power_int)
  have eu: "(2::rat) powi e = 2 ^ 52 * u"
    unfolding u_def by (simp add: power_int_diff)
  have "2 ^ 52 * u \<le> x" using ilog2_bounds(1)[OF assms] eu e_def by simp
  then have "of_int (2 ^ 52) \<le> x / u" using u by (simp add: pos_le_divide_eq)
  then have "2 ^ 52 \<le> round_half_even (x / u)" by (rule round_half_even_ge)
  then have "(of_int (2 ^ 52) :: rat) \<le> of_int (round_half_even (x / u))"
    using of_int_le_iff by blast
  then have "2 ^ 52 * u \<le> of_int (round_half_even (x / u)) * u"
    using u by simp 
  then show ?thesis using assms eu unfolding to_float_def Let_def e_def[symmetric] u_def[symmetric]
    by simp
qed

lemma to_float_upper:
  assumes "0 < x"
  shows "to_float x \<le> 2 powi (ilog2 x + 1)"
proof -
  define e where "e = ilog2 x"
  define u where "u = (2::rat) powi (e - 52)"
  have u: "0 < u" unfolding u_def by (simp add: zero_less_power_int)
  have eu: "(2::rat) powi (e + 1) = 2 ^ 53 * u"
    unfolding u_def by (simp add: power_int_diff power_int_add)
  have "x \<le> 2 ^ 53 * u" using ilog2_bounds(2)[OF assms] eu e_def by simp
  then have "x / u \<le> of_int (2 ^ 53)" using u by (simp add: pos_divide_le_eq)
  then have "round_half_even (x / u) \<le> 2 ^ 53" by (rule round_half_even_le)
  then have "(of_int (round_half_even (x / u)) :: rat) \<le> of_int (2 ^ 53)"
    using of_int_le_iff by blast
  then have "of_int (round_half_even (x / u)) * u \<le> 2 ^ 53 * u"
    using u by simp 
  then show ?thesis using assms eu unfolding to_float_def Let_def e_def[symmetric] u_def[symmetric]
    by simp
qed

lemma to_float_below_1:
  assumes "x < 1"
  shows "to_float x \<le> 1"
proof (cases "0 < x")
  case True
  have "ilog2 x < 0"
  proof (rule ccontr)
    assume "\<not> ilog2 x < 0"
    then have "(2::rat) powi 0 \<le> 2 powi (ilog2 x)" by (intro power_int_increasing) auto
    then show False using ilog2_bounds(1)[OF True] assms by simp
  qed
  then have "(2::rat) powi (ilog2 x + 1) \<le> 2 powi 0" by (intro power_int_increasing) auto
  then show ?thesis using to_float_upper[OF True] by simp
next
  case False
  then show ?thesis by (simp add: to_float_def)
qed

lemma to_float_above_2:
  assumes "2 \<le> x"
  shows "2 \<le> to_float x"
proof -
  have pos: "0 < x" using assms by simp
  have "0 < ilog2 x"
  proof (rule ccontr)
    assume "\<not> 0 < ilog2 x"
    then have "(2::rat) powi (ilog2 x + 1) \<le> 2 powi 1" by (intro power_int_increasing) auto
    then show False using ilog2_bounds(2)[OF pos] assms by simp
  qed
  then have "(2::rat) powi 1 \<le> 2 powi (ilog2 x)" by (intro power_int_increasing) auto
  then show ?thesis using to_float_lower[OF pos] by simp
qed

lemma float_1_5: "to_float (15 / 10) = 3 / 2"
  by code_simp

lemma float_1_2: "to_float (12 / 10) = 5404319552844595 / 4503599627370496"
  by code_simp


lemma to_float_le_mantissa:
  assumes "2 ^ 52 \<le> m" "m < 2 ^ 53" "x * 2 ^ 52 < of_int m + 1 / 2"
  shows "to_float x \<le> of_int m / 2 ^ 52"
proof (cases "x < 1")
  case True
  have "(of_int (2 ^ 52) :: rat) \<le> of_int m" using assms(1) of_int_le_iff by blast
  then have "(1::rat) \<le> of_int m / 2 ^ 52" by simp
  then show ?thesis using to_float_below_1[OF True] by linarith
next
  case False
  have "(of_int m :: rat) \<le> of_int (2 ^ 53 - 1)" using assms(2) of_int_le_iff by fastforce
  then have "x * 2 ^ 52 < 2 * 2 ^ 52" using assms(3) by simp
  then have x2: "x < 2" by simp
  have "round_half_even (x * 2 ^ 52) \<le> m" using assms(3) by (rule round_half_even_le_half)
  then have "(of_int (round_half_even (x * 2 ^ 52)) :: rat) \<le> of_int m"
    using of_int_le_iff by blast
  then show ?thesis using False x2 by (simp add: to_float_unit divide_right_mono)
qed

lemma to_float_gt_mantissa:
  assumes "2 ^ 52 \<le> m" "m < 2 ^ 53" "of_int m + 1 / 2 < x * 2 ^ 52"
  shows "of_int m / 2 ^ 52 < to_float x"
proof (cases "x < 2")
  case True
  have "(of_int (2 ^ 52) :: rat) \<le> of_int m" using assms(1) of_int_le_iff by blast
  then have "1 * 2 ^ 52 < x * 2 ^ 52" using assms(3) by simp
  then have x1: "1 \<le> x" by simp
  have "m + 1 \<le> round_half_even (x * 2 ^ 52)" using assms(3) by (rule round_half_even_ge_half)
  then have "(of_int (m + 1) :: rat) \<le> of_int (round_half_even (x * 2 ^ 52))"
    using of_int_le_iff by blast
  then have "(of_int m :: rat) < of_int (round_half_even (x * 2 ^ 52))" by simp
  then show ?thesis using True x1 by (simp add: to_float_unit divide_strict_right_mono)
next
  case False
  then have "2 \<le> to_float x" by (intro to_float_above_2) simp
  moreover have "(of_int m :: rat) < of_int (2 ^ 53)" using assms(2) of_int_less_iff by blast
  then have "(of_int m :: rat) / 2 ^ 52 < 2" by simp
  ultimately show ?thesis by linarith
qed

lemma true_div_gt_1_5:
  assumes "0 < h" "h < 2 ^ 51"
  shows "to_float (15 / 10) < true_div w h \<longleftrightarrow> 3 * h < 2 * w"
proof -
  define x :: rat where "x = of_nat w / of_nat h"
  have hpos: "(0::rat) < of_nat h" using assms(1) by simp
  have hlt: "(of_nat h :: rat) < 2 ^ 51"
    using assms(2) by (metis of_nat_less_iff of_nat_numeral of_nat_power)
  have t: "to_float (15 / 10) = of_int 6755399441055744 / 2 ^ 52"
    using float_1_5 by simp
  show ?thesis
  proof (cases "3 * h < 2 * w")
    case True
    then have "3 * h + 1 \<le> 2 * w" by simp
    then have "(of_nat (3 * h + 1) :: rat) \<le> of_nat (2 * w)" using of_nat_le_iff by blast
    then have "(3 * of_nat h + 1) / 2 \<le> (of_nat w :: rat)" by simp
    then have "(3 * of_nat h + 1) / 2 / of_nat h \<le> x"
      unfolding x_def using hpos by (intro divide_right_mono) auto
    then have "(3 * of_nat h + 1) / (2 * of_nat h) \<le> x" by simp
    moreover have "(3 * of_nat h + 1) / (2 * of_nat h) = 3 / 2 + 1 / (2 * (of_nat h :: rat))"
      using hpos by (simp add: field_simps)
    moreover have "1 / 2 ^ 52 < 1 / (2 * (of_nat h :: rat))"
      using hlt hpos by (simp add: field_simps)
    ultimately have "3 / 2 + 1 / 2 ^ 52 < x" by linarith
    then have "of_int 6755399441055744 + 1 / 2 < x * 2 ^ 52" by (simp add: field_simps)
    then have "of_int 6755399441055744 / 2 ^ 52 < to_float x"
      by (intro to_float_gt_mantissa) auto
    then show ?thesis using True t by (simp add: true_div_def x_def)
  next
    case False
    then have "2 * w \<le> 3 * h" by simp
    then have "(of_nat (2 * w) :: rat) \<le> of_nat (3 * h)" using of_nat_le_iff by blast
    then have "x \<le> 3 / 2" unfolding x_def using hpos by (simp add: field_simps)
    then have "x * 2 ^ 52 < of_int 6755399441055744 + 1 / 2" by (simp add: field_simps)
    then have "to_float x \<le> of_int 6755399441055744 / 2 ^ 52"
      by (intro to_float_le_mantissa) auto
    then show ?thesis using False t by (simp add: true_div_def x_def)
  qed
qed

lemma true_div_gt_1_2:
  assumes "0 < h" "h < 2 ^ 51"
  shows "to_float (12 / 10) < true_div w h \<longleftrightarrow> 6 * h < 5 * w"
proof -
  define x :: rat where "x = of_nat w / of_nat h"
  have hpos: "(0::rat) < of_nat h" using assms(1) by simp
  have hlt: "(of_nat h :: rat) < 2 ^ 51"
    using assms(2) by (metis of_nat_less_iff of_nat_numeral of_nat_power)
  have t: "to_float (12 / 10) = of_int 5404319552844595 / 2 ^ 52"
    using float_1_2 by simp
  show ?thesis
  proof (cases "6 * h < 5 * w")
    case True
    then have "6 * h + 1 \<le> 5 * w" by simp
    then have "(of_nat (6 * h + 1) :: rat) \<le> of_nat (5 * w)" using of_nat_le_iff by blast
    then have "(6 * of_nat h + 1) / 5 \<le> (of_nat w :: rat)" by simp
    then have "(6 * of_nat h + 1) / 5 / of_nat h \<le> x"
      unfolding x_def using hpos by (intro divide_right_mono) auto
    then have "(6 * of_nat h + 1) / (5 * of_nat h) \<le> x" by simp
    moreover have "(6 * of_nat h + 1) / (5 * of_nat h) = 6 / 5 + 1 / (5 * (of_nat h :: rat))"
      using hpos by (simp add: field_simps)
    moreover have "1 / (5 * 2 ^ 51) < 1 / (5 * (of_nat h :: rat))"
      using hlt hpos by (simp add: field_simps)
    ultimately have "6 / 5 + 1 / (5 * 2 ^ 51) < x" by linarith
    then have "of_int 5404319552844595 + 1 / 2 < x * 2 ^ 52" by (simp add: field_simps)
    then have "of_int 5404319552844595 / 2 ^ 52 < to_float x"
      by (intro to_float_gt_mantissa) auto
    then show ?thesis using True t by (simp add: true_div_def x_def)
  next
    case False
    then have "5 * w \<le> 6 * h" by simp
    then have "(of_nat (5 * w) :: rat) \<le> of_nat (6 * h)" using of_nat_le_iff by blast
    then have "x \<le> 6 / 5" unfolding x_def using hpos by (simp add: field_simps)
    then have "x * 2 ^ 52 < of_int 5404319552844595 + 1 / 2" by (simp add: field_simps)
    then have "to_float x \<le> of_int 5404319552844595 / 2 ^ 52"
      by (intro to_float_le_mantissa) auto
    then show ?thesis using False t by (simp add: true_div_def x_def)
  qed
qed

section \<open>The classifier\<close>

lemma aspect_ratio_gt_1_5:
  assumes "height < 2 ^ 51"
  shows "(to_float (15 / 10) < aspect_ratio width height \<and> 200 < height) =
         ((15 / 10 :: rat) < of_nat width / of_nat height \<and> 200 < height)"
proof (cases "height = 0")
  case True
  then show ?thesis by simp
next
  case False
  then have h: "0 < height" by simp
  have "(15 / 10 :: rat) < of_nat width / of_nat height \<longleftrightarrow> 3 * height < 2 * width"
  proof -
    have "(15 / 10 :: rat) < of_nat width / of_nat height \<longleftrightarrow>
          (of_nat (3 * height) :: rat) < of_nat (2 * width)"
      using h by (simp add: field_simps)
    then show ?thesis using of_nat_less_iff by blast
  qed
  then show ?thesis using true_div_gt_1_5[OF h assms, of width] h by (simp add: aspect_ratio_def)
qed

lemma aspect_ratio_gt_1_2:
  assumes "height < 2 ^ 51"
  shows "(to_float (12 / 10) < aspect_ratio width height \<and> 150 < height) =
         ((12 / 10 :: rat) < of_nat width / of_nat height \<and> 150 < height)"
proof (cases "height = 0")
  case True
  then show ?thesis by simp
next
  case False
  then have h: "0 < height" by simp
  have "(12 / 10 :: rat) < of_nat width / of_nat height \<longleftrightarrow> 6 * height < 5 * width"
  proof -
    have "(12 / 10 :: rat) < of_nat width / of_nat height \<longleftrightarrow>
          (of_nat (6 * height) :: rat) < of_nat (5 * width)"
      using h by (simp add: field_simps)
    then show ?thesis using of_nat_less_iff by blast
  qed
  then show ?thesis using true_div_gt_1_2[OF h assms, of width] h by (simp add: aspect_ratio_def)
qed

lemma any_inI: "keyword \<in> set keywords \<Longrightarrow> str_in keyword s \<Longrightarrow> any_in keywords s"
  by (auto simp: any_in_def list_ex_iff)

text \<open>
  C4. Whenever a file name is given and its lowercase form contains one of the keywords
  \<open>sequence\<close>, \<open>seq\<close>, \<open>interaction\<close>, \<open>collaboration\<close>, \<open>message flow\<close>, \<open>uml\<close>,
  \<open>system flow\<close>, \<open>process flow\<close>, the classifier answers positive with the reason
  \<open>Filename suggests sequence diagram\<close>, whatever the width and the height of the image
  are: the aspect-ratio rules are not consulted.
\<close>

theorem filename_keyword_wins:
  assumes "keyword \<in> set [''sequence'', ''seq'', ''interaction'', ''collaboration'',
             ''message flow'', ''uml'', ''system flow'', ''process flow'']"
      and "str_in keyword (lower name)"
  shows "detect_sequence_diagram \<lparr>img_size = (width, height), mode = m, format = f,
                                  bits = b, pixel_data = px\<rparr>
           (Some name) = (True, Some ''Filename suggests sequence diagram'')"
proof -
  have "keyword \<in> set seq_keywords" using assms(1) by (simp add: seq_keywords_def)
  then have "any_in seq_keywords (lower name)" using assms(2) by (rule any_inI)
  then show ?thesis by (simp add: detect_sequence_diagram_def)
qed

text \<open>
  An instance: the name \<open>Login-Sequence.PNG\<close> on a square image of 100 by 100 pixels,
  whose aspect ratio is 1.
\<close>

theorem filename_keyword_wins_witness:
  "''sequence'' \<in> set [''sequence'', ''seq'', ''interaction'', ''collaboration'',
             ''message flow'', ''uml'', ''system flow'', ''process flow''] \<and>
   str_in ''sequence'' (lower ''Login-Sequence.PNG'') \<and>
   aspect_ratio 100 100 = 1 \<and>
   detect_sequence_diagram \<lparr>img_size = (100, 100), mode = ''RGB'', format = Some ''PNG'',
                            bits = None, pixel_data = []\<rparr>
     (Some ''Login-Sequence.PNG'') = (True, Some ''Filename suggests sequence diagram'')"
proof -
  have k: "''sequence'' \<in> set [''sequence'', ''seq'', ''interaction'', ''collaboration'',
             ''message flow'', ''uml'', ''system flow'', ''process flow'']" by simp
  have s: "str_in ''sequence'' (lower ''Login-Sequence.PNG'')" by code_simp
  have a: "aspect_ratio 100 100 = 1" by code_simp
  show ?thesis using k s a filename_keyword_wins[OF k s] by blast
qed

text \<open>
  C5. When no keyword occurs in the file name, the classifier computes
  \<open>aspect_ratio = width / height\<close> (1 if the height is 0) and answers positive with the
  reason \<open>Wide format typical of sequence diagrams\<close> exactly when
  \<open>aspect_ratio > 1.5\<close> and \<open>height > 200\<close>, both strictly; otherwise positive with the
  reason \<open>Format suggests technical diagram\<close> exactly when \<open>aspect_ratio > 1.2\<close> and
  \<open>height > 150\<close>; otherwise negative. The comparisons are made on doubles; for every
  height below \<open>2\<^sup>5\<^sup>1\<close> they decide exactly whether the quotient of the two integers
  exceeds \<open>1.5\<close> and \<open>1.2\<close>.
\<close>

theorem aspect_ratio_rules:
  assumes "\<not> any_in seq_keywords (case file_name of None \<Rightarrow> [] | Some n \<Rightarrow> lower n)"
  shows "detect_sequence_diagram \<lparr>img_size = (width, height), mode = m, format = f,
                                  bits = b, pixel_data = px\<rparr>
           file_name =
           (if aspect_ratio width height > to_float (15 / 10) \<and> height > 200 then
              (True, Some ''Wide format typical of sequence diagrams'')
            else if aspect_ratio width height > to_float (12 / 10) \<and> height > 150 then
              (True, Some ''Format suggests technical diagram'')
            else (False, None)) \<and>
         aspect_ratio width height =
           (if height = 0 then 1 else to_float (of_nat width / of_nat height)) \<and>
         (height < 2 ^ 51 \<longrightarrow>
            (aspect_ratio width height > to_float (15 / 10) \<and> height > 200) =
              (of_nat width / of_nat height > (15 / 10 :: rat) \<and> height > 200) \<and>
            (aspect_ratio width height > to_float (12 / 10) \<and> height > 150) =
              (of_nat width / of_nat height > (12 / 10 :: rat) \<and> height > 150))"
proof -
  have 1: "detect_sequence_diagram \<lparr>img_size = (width, height), mode = m, format = f,
                                    bits = b, pixel_data = px\<rparr>
           file_name =
           (if aspect_ratio width height > to_float (15 / 10) \<and> height > 200 then
              (True, Some ''Wide format typical of sequence diagrams'')
            else if aspect_ratio width height > to_float (12 / 10) \<and> height > 150 then
              (True, Some ''Format suggests technical diagram'')
            else (False, None))"
    using assms unfolding detect_sequence_diagram_def Let_def by simp
  have 2: "aspect_ratio width height =
           (if height = 0 then 1 else to_float (of_nat width / of_nat height))"
    by (simp add: aspect_ratio_def true_div_def)
  show ?thesis using 1 2 aspect_ratio_gt_1_5 aspect_ratio_gt_1_2 by blast
qed

text \<open>
  The two boundary cases: with height 201 and width 304 (a ratio of about 1.51) the first
  rule applies; with height exactly 200 it does not, even at ratio 2, and the second rule
  answers.
\<close>

theorem aspect_ratio_rules_witness:
  "\<not> any_in seq_keywords (case Some ''photo.png'' of None \<Rightarrow> [] | Some n \<Rightarrow> lower n) \<and>
   (201 :: nat) < 2 ^ 51 \<and> (200 :: nat) < 2 ^ 51 \<and>
   detect_sequence_diagram \<lparr>img_size = (304, 201), mode = ''RGB'', format = Some ''PNG'',
                            bits = None, pixel_data = []\<rparr>
     (Some ''photo.png'') = (True, Some ''Wide format typical of sequence diagrams'') \<and>
   detect_sequence_diagram \<lparr>img_size = (400, 200), mode = ''RGB'', format = Some ''PNG'',
                            bits = None, pixel_data = []\<rparr>
     (Some ''photo.png'') = (True, Some ''Format suggests technical diagram'')"
proof -
  have n: "\<not> any_in seq_keywords (case Some ''photo.png'' of None \<Rightarrow> [] | Some n \<Rightarrow> lower n)"
    by code_simp
  have a: "detect_sequence_diagram
             \<lparr>img_size = (304, 201), mode = ''RGB'', format = Some ''PNG'',
              bits = None, pixel_data = []\<rparr>
             (Some ''photo.png'') = (True, Some ''Wide format typical of sequence diagrams'')"
    using aspect_ratio_rules[OF n, of 304 201 "''RGB''" "Some ''PNG''" None "[]"] by simp
  have b: "detect_sequence_diagram
             \<lparr>img_size = (400, 200), mode = ''RGB'', format = Some ''PNG'',
              bits = None, pixel_data = []\<rparr>
             (Some ''photo.png'') = (True, Some ''Format suggests technical diagram'')"
    using aspect_ratio_rules[OF n, of 400 200 "''RGB''" "Some ''PNG''" None "[]"] by simp
  show ?thesis using n a b by simp
qed

text \<open>
  C8, as stated, fails: where no rule matches, the reason that the classifier returns is
  \<open>None\<close>, not the empty string. The image of 100 by 100 pixels named \<open>photo.png\<close>
  matches no rule, and the result differs from the pair of \<open>False\<close> and the empty string.
\<close>

theorem no_rule_reason_counterexample:
  "\<not> any_in seq_keywords (lower ''photo.png'') \<and>
   \<not> (aspect_ratio 100 100 > to_float (15 / 10) \<and> (100 :: nat) > 200) \<and>
   \<not> (aspect_ratio 100 100 > to_float (12 / 10) \<and> (100 :: nat) > 150) \<and>
   detect_sequence_diagram
     \<lparr>img_size = (100, 100), mode = ''RGB'', format = Some ''PNG'',
      bits = None, pixel_data = []\<rparr>
     (Some ''photo.png'') \<noteq> (False, Some '''')"
  by code_simp

text \<open>
  C8, amended. For every input where no rule matches (no keyword in the file name, and
  both aspect-ratio rules fail), the classifier answers negative and gives no reason: the
  second component of the result is \<open>None\<close>.
\<close>

theorem no_rule_no_reason:
  assumes "\<not> any_in seq_keywords (case file_name of None \<Rightarrow> [] | Some n \<Rightarrow> lower n)"
      and "\<not> (aspect_ratio width height > to_float (15 / 10) \<and> height > 200)"
      and "\<not> (aspect_ratio width height > to_float (12 / 10) \<and> height > 150)"
  shows "detect_sequence_diagram \<lparr>img_size = (width, height), mode = m, format = f,
                                  bits = b, pixel_data = px\<rparr>
           file_name = (False, None)"
  using assms unfolding detect_sequence_diagram_def Let_def by simp

text \<open>An instance: the image of 100 by 100 pixels named \<open>photo.png\<close>.\<close>

theorem no_rule_no_reason_witness:
  "\<not> any_in seq_keywords (case Some ''photo.png'' of None \<Rightarrow> [] | Some n \<Rightarrow> lower n) \<and>
   \<not> (aspect_ratio 100 100 > to_float (15 / 10) \<and> (100 :: nat) > 200) \<and>
   \<not> (aspect_ratio 100 100 > to_float (12 / 10) \<and> (100 :: nat) > 150) \<and>
   detect_sequence_diagram
     \<lparr>img_size = (100, 100), mode = ''RGB'', format = Some ''PNG'',
      bits = None, pixel_data = []\<rparr>
     (Some ''photo.png'') = (False, None)"
proof -
  have n: "\<not> any_in seq_keywords (case Some ''photo.png'' of None \<Rightarrow> [] | Some n \<Rightarrow> lower n)"
    by code_simp
  have a: "\<not> (aspect_ratio 100 100 > to_float (15 / 10) \<and> (100 :: nat) > 200)" by simp
  have b: "\<not> (aspect_ratio 100 100 > to_float (12 / 10) \<and> (100 :: nat) > 150)" by simp
  show ?thesis using n a b no_rule_no_reason[OF n a b] by blast
qed

section \<open>The prompt override\<close>

text \<open>
  C6. The prompt override is monotone. If the lowercase prompt contains one of the keywords
  \<open>sequence\<close>, \<open>lifeline\<close>, \<open>message\<close>, \<open>participant\<close>, \<open>actor\<close>, \<open>interaction\<close>,
  \<open>uml\<close>, \<open>diagram\<close> and the classifier answered negative, the classification becomes
  positive with the reason \<open>User prompt suggests sequence diagram\<close>. If the classifier
  answered positive, the classification stays positive with the classifier's own reason,
  whatever the prompt is.
\<close>

theorem prompt_override:
  "(keyword \<in> set [''sequence'', ''lifeline'', ''message'', ''participant'', ''actor'',
                    ''interaction'', ''uml'', ''diagram''] \<and>
    str_in keyword (lower prompt) \<and>
    detect_sequence_diagram img file_name = (False, reason)
    \<longrightarrow> classify img prompt file_name = (True, Some ''User prompt suggests sequence diagram'')) \<and>
   (detect_sequence_diagram img file_name = (True, reason)
    \<longrightarrow> classify img prompt file_name = (True, reason))"
proof -
  have "classify img prompt file_name = (True, Some ''User prompt suggests sequence diagram'')"
    if k: "keyword \<in> set [''sequence'', ''lifeline'', ''message'', ''participant'', ''actor'',
                    ''interaction'', ''uml'', ''diagram'']"
      and s: "str_in keyword (lower prompt)"
      and d: "detect_sequence_diagram img file_name = (False, reason)"
  proof -
    have "keyword \<in> set seq_prompt_keywords" using k by (simp add: seq_prompt_keywords_def)
    then have "prompt_suggests_seq prompt"
      unfolding prompt_suggests_seq_def using s by (rule any_inI)
    then show ?thesis using d by (simp add: classify_def)
  qed
  moreover have "classify img prompt file_name = (True, reason)"
    if "detect_sequence_diagram img file_name = (True, reason)"
    using that by (simp add: classify_def)
  ultimately show ?thesis by blast
qed

text \<open>
  Two instances: a prompt with the word \<open>Diagram\<close> on an image that the classifier
  rejects, and a prompt without any keyword on an image that the classifier accepts.
\<close>

theorem prompt_override_witness:
  "(''diagram'' \<in> set [''sequence'', ''lifeline'', ''message'', ''participant'', ''actor'',
                    ''interaction'', ''uml'', ''diagram''] \<and>
    str_in ''diagram'' (lower ''Explain this Diagram'') \<and>
    detect_sequence_diagram
      \<lparr>img_size = (100, 100), mode = ''RGB'', format = Some ''PNG'',
       bits = None, pixel_data = []\<rparr>
      (Some ''photo.png'') = (False, None) \<and>
    classify \<lparr>img_size = (100, 100), mode = ''RGB'', format = Some ''PNG'',
              bits = None, pixel_data = []\<rparr>
      ''Explain this Diagram'' (Some ''photo.png'') =
      (True, Some ''User prompt suggests sequence diagram'')) \<and>
   (detect_sequence_diagram
      \<lparr>img_size = (100, 100), mode = ''RGB'', format = Some ''PNG'',
       bits = None, pixel_data = []\<rparr>
      (Some ''uml.png'') = (True, Some ''Filename suggests sequence diagram'') \<and>
    classify \<lparr>img_size = (100, 100), mode = ''RGB'', format = Some ''PNG'',
              bits = None, pixel_data = []\<rparr>
      ''Describe this image'' (Some ''uml.png'') =
      (True, Some ''Filename suggests sequence diagram''))"
proof -
  have k: "''diagram'' \<in> set [''sequence'', ''lifeline'', ''message'', ''participant'', ''actor'',
                    ''interaction'', ''uml'', ''diagram'']" by simp
  have s: "str_in ''diagram'' (lower ''Explain this Diagram'')" by code_simp
  have d1: "detect_sequence_diagram
      \<lparr>img_size = (100, 100), mode = ''RGB'', format = Some ''PNG'',
       bits = None, pixel_data = []\<rparr>
      (Some ''photo.png'') = (False, None)" by code_simp
  have d2: "detect_sequence_diagram
      \<lparr>img_size = (100, 100), mode = ''RGB'', format = Some ''PNG'',
       bits = None, pixel_data = []\<rparr>
      (Some ''uml.png'') = (True, Some ''Filename suggests sequence diagram'')"
    by code_simp
  have c1: "classify \<lparr>img_size = (100, 100), mode = ''RGB'', format = Some ''PNG'',
                      bits = None, pixel_data = []\<rparr>
      ''Explain this Diagram'' (Some ''photo.png'') =
      (True, Some ''User prompt suggests sequence diagram'')"
    by (rule mp[OF conjunct1[OF prompt_override[of "''diagram''" "''Explain this Diagram''"
        "\<lparr>img_size = (100, 100), mode = ''RGB'', format = Some ''PNG'',
          bits = None, pixel_data = []\<rparr>"
        "Some ''photo.png''" None]]]) (intro conjI k s d1)
  have c2: "classify \<lparr>img_size = (100, 100), mode = ''RGB'', format = Some ''PNG'',
                      bits = None, pixel_data = []\<rparr>
      ''Describe this image'' (Some ''uml.png'') =
      (True, Some ''Filename suggests sequence diagram'')"
    by (rule mp[OF conjunct2[OF prompt_override]]) (rule d2)
  show ?thesis by (intro conjI k s d1 d2 c1 c2)
qed

section \<open>The generic report\<close>

lemma report_size_category:
  "str_in (''- **Size Category**: '' @ size_category (fst (img_size img) * snd (img_size img)) @ ''\<newline>'')
     (basic_analysis img file_name)"
  unfolding basic_analysis_def Let_def case_prod_beta
  by (rule str_in_here | rule str_in_skip)+

lemma report_file_type:
  "str_in (''- **File Type**: '' @ likely_type file_name @ ''\<newline>'') (basic_analysis img file_name)"
  unfolding basic_analysis_def Let_def case_prod_beta
  by (rule str_in_here | rule str_in_skip)+

text \<open>
  C7. In the generic report the size category is decided by the number of pixels
  \<open>p = width * height\<close> with strict upper bounds: it is \<open>Small\<close> exactly when \<open>p < 307200\<close>,
  \<open>Medium\<close> exactly when \<open>307200 \<le> p < 2073600\<close>, \<open>Large\<close> exactly when
  \<open>2073600 \<le> p < 4194304\<close>, and \<open>Very Large\<close> otherwise. An image of 1920 by 1080 pixels
  is \<open>Large\<close>, one of 1919 by 1079 pixels is \<open>Medium\<close>, and the report contains the line
  that names the category.
\<close>

theorem size_category_buckets:
  "(size_category (width * height) = ''Small'' \<longleftrightarrow> width * height < 307200) \<and>
   (size_category (width * height) = ''Medium'' \<longleftrightarrow>
      307200 \<le> width * height \<and> width * height < 2073600) \<and>
   (size_category (width * height) = ''Large'' \<longleftrightarrow>
      2073600 \<le> width * height \<and> width * height < 4194304) \<and>
   (size_category (width * height) = ''Very Large'' \<longleftrightarrow> 4194304 \<le> width * height) \<and>
   size_category (1920 * 1080) = ''Large'' \<and>
   size_category (1919 * 1079) = ''Medium'' \<and>
   str_in (''- **Size Category**: '' @ size_category (width * height) @ ''\<newline>'')
     (basic_analysis \<lparr>img_size = (width, height), mode = m, format = f,
                      bits = b, pixel_data = px\<rparr> file_name)"
proof -
  have "str_in (''- **Size Category**: '' @ size_category (width * height) @ ''\<newline>'')
     (basic_analysis \<lparr>img_size = (width, height), mode = m, format = f,
                      bits = b, pixel_data = px\<rparr> file_name)"
    using report_size_category
      [of "\<lparr>img_size = (width, height), mode = m, format = f,
            bits = b, pixel_data = px\<rparr>" file_name]
    by simp
  then show ?thesis by (simp add: size_category_def)
qed

text \<open>
  C10. The file type of the generic report is found by comparing the whole lowercase file
  name, not its extension, with the extension lists. So for every file name whose
  lowercase form is not itself one of \<open>.jpg\<close>, \<open>.jpeg\<close>, \<open>.png\<close>, \<open>.gif\<close>, \<open>.bmp\<close>,
  \<open>.svg\<close>, \<open>.ico\<close>, \<open>.psd\<close>, \<open>.tiff\<close>, \<open>.tif\<close> (and when no name is given), the file
  type is \<open>Image File\<close> and the report says so.
\<close>

theorem file_type_compares_whole_name:
  assumes "(case file_name of None \<Rightarrow> [] | Some n \<Rightarrow> lower n) \<notin>
             set [''.jpg'', ''.jpeg'', ''.png'', ''.gif'', ''.bmp'', ''.svg'', ''.ico'', ''.psd'',
                  ''.tiff'', ''.tif'']"
  shows "likely_type file_name = ''Image File'' \<and>
         str_in (''- **File Type**: Image File\<newline>'') (basic_analysis img file_name)"
proof -
  have l: "likely_type file_name = ''Image File''"
    using assms unfolding likely_type_def Let_def by simp
  have "str_in (''- **File Type**: '' @ likely_type file_name @ ''\<newline>'')
          (basic_analysis img file_name)"
    by (rule report_file_type)
  then show ?thesis using l by simp
qed

text \<open>An instance: the ordinary name \<open>photo.jpg\<close>.\<close>

theorem file_type_compares_whole_name_witness:
  "(case Some ''photo.jpg'' of None \<Rightarrow> [] | Some n \<Rightarrow> lower n) \<notin>
     set [''.jpg'', ''.jpeg'', ''.png'', ''.gif'', ''.bmp'', ''.svg'', ''.ico'', ''.psd'',
          ''.tiff'', ''.tif''] \<and>
   likely_type (Some ''photo.jpg'') = ''Image File'' \<and>
   str_in (''- **File Type**: Image File\<newline>'')
     (basic_analysis \<lparr>img_size = (100, 100), mode = ''RGB'', format = Some ''JPEG'',
                      bits = Some 8, pixel_data = []\<rparr>
        (Some ''photo.jpg''))"
proof -
  have h: "(case Some ''photo.jpg'' of None \<Rightarrow> [] | Some n \<Rightarrow> lower n) \<notin>
     set [''.jpg'', ''.jpeg'', ''.png'', ''.gif'', ''.bmp'', ''.svg'', ''.ico'', ''.psd'',
          ''.tiff'', ''.tif'']" by code_simp
  show ?thesis
    using h file_type_compares_whole_name[OF h,
      of "\<lparr>img_size = (100, 100), mode = ''RGB'', format = Some ''JPEG'',
           bits = Some 8, pixel_data = []\<rparr>"]
    by blast
qed

section \<open>The remote-call loop\<close>

text \<open>
  Each of the following three lemmas describes the calls that a part of the loop adds to
  those made before: a call that is answered with a text is the last one and its text is
  returned; a call with the image object that is answered with a quota error is the last
  one, the loop is left by \<open>break\<close> and \<open>api_error\<close> holds the quota text.
\<close>

lemma handler_result:
  assumes "second_error_handler m e st = (f, st')"
  shows "calls st' = calls st" and "f \<noteq> Return t"
  using assms by (auto simp: second_error_handler_def Let_def split: if_splits)

lemma second_attempt_trace:
  assumes "second_attempt E sp m st = (f, st')"
  shows "\<exists>new. calls st' = calls st @ new \<and>
           (\<forall>k < length new. call_image (new ! k) = PNG_bytes) \<and>
           (\<forall>k t. k < length new \<longrightarrow>
              generate_content E (calls st @ take (Suc k) new) = Text t \<longrightarrow>
              Suc k = length new \<and> f = Return t)"
proof (cases "image_save E")
  case (Some e)
  then have "second_attempt E sp m st = second_error_handler m e st"
    by (simp add: second_attempt_def)
  then have "second_error_handler m e st = (f, st')" using assms by simp
  then have "calls st' = calls st" by (rule handler_result)
  then show ?thesis by simp
next
  case None
  define c where "c = \<lparr>call_model = m, call_prompt = sp, call_image = PNG_bytes\<rparr>"
  define st1 where "st1 = st\<lparr>calls := calls st @ [c]\<rparr>"
  have sa: "second_attempt E sp m st =
      (case generate_content E (calls st @ [c]) of
         Text t \<Rightarrow> (Return t, st1)
       | Raises e \<Rightarrow> second_error_handler m e st1)"
    unfolding second_attempt_def Let_def c_def st1_def using None by simp
  have cs: "calls st' = calls st @ [c]"
  proof (cases "generate_content E (calls st @ [c])")
    case (Text t)
    then show ?thesis using sa assms by (simp add: st1_def)
  next
    case (Raises e)
    then have "second_error_handler m e st1 = (f, st')" using sa assms by simp
    then have "calls st' = calls st1" by (rule handler_result)
    then show ?thesis by (simp add: st1_def)
  qed
  have ret: "f = Return t" if "generate_content E (calls st @ [c]) = Text t" for t
    using that sa assms by simp
  have "call_image c = PNG_bytes" by (simp add: c_def)
  then show ?thesis using cs ret by (intro exI[of _ "[c]"]) simp
qed


lemma try_model_trace:
  assumes "try_model E s p m st = (f, st')"
  shows "\<exists>new. calls st' = calls st @ new \<and>
           (\<forall>k t. k < length new \<longrightarrow>
              generate_content E (calls st @ take (Suc k) new) = Text t \<longrightarrow>
              Suc k = length new \<and> f = Return t) \<and>
           (\<forall>k e. k < length new \<longrightarrow> call_image (new ! k) = PIL_image \<longrightarrow>
              generate_content E (calls st @ take (Suc k) new) = Raises e \<longrightarrow>
              str_in ''quota'' (lower e) \<or> str_in ''limit'' (lower e) \<longrightarrow>
              Suc k = length new \<and> f = Break \<and> api_error st' = Some (quota_exceeded_text e))"
proof -
  define sp where "sp = (if s then specialized_prompt else p)"
  define c where "c = \<lparr>call_model = m, call_prompt = sp, call_image = PIL_image\<rparr>"
  define st1 where "st1 = st\<lparr>calls := calls st @ [c]\<rparr>"
  have cs1: "calls st1 = calls st @ [c]" by (simp add: st1_def)
  have tm: "try_model E s p m st =
     (case generate_content E (calls st @ [c]) of
        Text t \<Rightarrow> (Return t, st1)
      | Raises first_error \<Rightarrow>
          if str_in ''quota'' (lower first_error) \<or> str_in ''limit'' (lower first_error) then
            (Break, st1\<lparr>api_error := Some (quota_exceeded_text first_error)\<rparr>)
          else if str_in ''404'' (lower first_error) \<or> str_in ''not found'' (lower first_error) then
            second_attempt E sp m (st1\<lparr>api_error := Some (not_available_text m)\<rparr>)
          else if str_in ''permission'' (lower first_error)
                  \<or> str_in ''forbidden'' (lower first_error) then
            (Break, st1\<lparr>api_error := Some permission_denied_text\<rparr>)
          else
            second_attempt E sp m (st1\<lparr>api_error := Some (error_with_model_text m first_error)\<rparr>))"
    unfolding try_model_def Let_def sp_def c_def st1_def by simp
  have single: "?thesis"
    if "calls st' = calls st @ [c]"
      and "\<And>t. generate_content E (calls st @ [c]) = Text t \<Longrightarrow> f = Return t"
      and "\<And>e. generate_content E (calls st @ [c]) = Raises e \<Longrightarrow>
             str_in ''quota'' (lower e) \<or> str_in ''limit'' (lower e) \<Longrightarrow>
             f = Break \<and> api_error st' = Some (quota_exceeded_text e)"
    using that by (intro exI[of _ "[c]"]) simp
  have second: "?thesis"
    if r: "generate_content E (calls st @ [c]) = Raises e"
      and nq: "\<not> (str_in ''quota'' (lower e) \<or> str_in ''limit'' (lower e))"
      and sa: "second_attempt E sp m st2 = (f, st')"
      and c2: "calls st2 = calls st @ [c]"
    for e st2
  proof -
    obtain new2 where n2: "calls st' = calls st2 @ new2"
      and png: "\<forall>k < length new2. call_image (new2 ! k) = PNG_bytes"
      and texts: "\<forall>k t. k < length new2 \<longrightarrow>
              generate_content E (calls st2 @ take (Suc k) new2) = Text t \<longrightarrow>
              Suc k = length new2 \<and> f = Return t"
      using second_attempt_trace[OF sa] by blast
    have a: "calls st' = calls st @ (c # new2)" using n2 c2 by simp
    have b: "Suc k = length (c # new2) \<and> f = Return t"
      if "k < length (c # new2)"
        and "generate_content E (calls st @ take (Suc k) (c # new2)) = Text t" for k t
    proof (cases k)
      case 0
      then show ?thesis using that r by simp
    next
      case (Suc j)
      then have "j < length new2" using that(1) by simp
      moreover have "generate_content E (calls st2 @ take (Suc j) new2) = Text t"
        using that(2) Suc c2 by simp
      ultimately show ?thesis using texts Suc by simp
    qed
    have d: "Suc k = length (c # new2) \<and> f = Break \<and> api_error st' = Some (quota_exceeded_text e')"
      if "k < length (c # new2)" and "call_image ((c # new2) ! k) = PIL_image"
        and "generate_content E (calls st @ take (Suc k) (c # new2)) = Raises e'"
        and "str_in ''quota'' (lower e') \<or> str_in ''limit'' (lower e')" for k e'
    proof (cases k)
      case 0
      then show ?thesis using that r nq by simp
    next
      case (Suc j)
      then have "j < length new2" using that(1) by simp
      then have "call_image (new2 ! j) = PNG_bytes" using png by simp
      then show ?thesis using that(2) Suc by simp
    qed
    show ?thesis using a b d by (intro exI[of _ "c # new2"]) blast
  qed
  show ?thesis
  proof (cases "generate_content E (calls st @ [c])")
    case (Text t)
    then have "f = Return t" "st' = st1" using tm assms by simp_all
    then show ?thesis using Text cs1 by (intro single) simp_all
  next
    case (Raises e)
    show ?thesis
    proof (cases "str_in ''quota'' (lower e) \<or> str_in ''limit'' (lower e)")
      case True
      then have "f = Break" "st' = st1\<lparr>api_error := Some (quota_exceeded_text e)\<rparr>"
        using tm assms Raises by simp_all
      then show ?thesis using Raises cs1 by (intro single) simp_all
    next
      case nq: False
      show ?thesis
      proof (cases "str_in ''404'' (lower e) \<or> str_in ''not found'' (lower e)")
        case True
        then have sa: "second_attempt E sp m (st1\<lparr>api_error := Some (not_available_text m)\<rparr>) = (f, st')"
          using tm assms Raises nq by simp
        show ?thesis by (rule second[OF Raises nq sa]) (simp add: cs1)
      next
        case nf: False
        show ?thesis
        proof (cases "str_in ''permission'' (lower e) \<or> str_in ''forbidden'' (lower e)")
          case True
          then have "f = Break" "st' = st1\<lparr>api_error := Some permission_denied_text\<rparr>"
            using tm assms Raises nq nf by simp_all
          then show ?thesis using Raises nq cs1 by (intro single) simp_all
        next
          case False
          then have sa: "second_attempt E sp m
                 (st1\<lparr>api_error := Some (error_with_model_text m e)\<rparr>) = (f, st')"
            using tm assms Raises nq nf by simp
          show ?thesis by (rule second[OF Raises nq sa]) (simp add: cs1)
        qed
      qed
    qed
  qed
qed

lemma try_models_trace:
  assumes "try_models E s p ms st = (r, st')"
  shows "\<exists>new. calls st' = calls st @ new \<and>
           (\<forall>k t. k < length new \<longrightarrow>
              generate_content E (calls st @ take (Suc k) new) = Text t \<longrightarrow>
              Suc k = length new \<and> r = Some t) \<and>
           (\<forall>k e. k < length new \<longrightarrow> call_image (new ! k) = PIL_image \<longrightarrow>
              generate_content E (calls st @ take (Suc k) new) = Raises e \<longrightarrow>
              str_in ''quota'' (lower e) \<or> str_in ''limit'' (lower e) \<longrightarrow>
              Suc k = length new \<and> r = None \<and> api_error st' = Some (quota_exceeded_text e))"
  using assms
proof (induction ms arbitrary: st)
  case Nil
  then have "st' = st" by simp
  then show ?case by simp
next
  case (Cons m ms)
  obtain f st1 where step: "try_model E s p m st = (f, st1)"
    by (cases "try_model E s p m st")
  obtain new1 where n1: "calls st1 = calls st @ new1"
    and t1: "\<And>k t. k < length new1 \<Longrightarrow>
              generate_content E (calls st @ take (Suc k) new1) = Text t \<Longrightarrow>
              Suc k = length new1 \<and> f = Return t"
    and q1: "\<And>k e. k < length new1 \<Longrightarrow> call_image (new1 ! k) = PIL_image \<Longrightarrow>
              generate_content E (calls st @ take (Suc k) new1) = Raises e \<Longrightarrow>
              str_in ''quota'' (lower e) \<or> str_in ''limit'' (lower e) \<Longrightarrow>
              Suc k = length new1 \<and> f = Break \<and> api_error st1 = Some (quota_exceeded_text e)"
    using try_model_trace[OF step] by blast
  show ?case
  proof (cases f)
    case (Return t)
    then have "r = Some t" "st' = st1" using Cons.prems step by simp_all
    then show ?thesis using n1 t1 q1 Return by (intro exI[of _ new1]) fastforce
  next
    case Break
    then have "r = None" "st' = st1" using Cons.prems step by simp_all
    then show ?thesis using n1 t1 q1 Break by (intro exI[of _ new1]) fastforce
  next
    case Continue
    then have rest: "try_models E s p ms st1 = (r, st')" using Cons.prems step by simp
    obtain new2 where n2: "calls st' = calls st1 @ new2"
      and t2: "\<And>k t. k < length new2 \<Longrightarrow>
              generate_content E (calls st1 @ take (Suc k) new2) = Text t \<Longrightarrow>
              Suc k = length new2 \<and> r = Some t"
      and q2: "\<And>k e. k < length new2 \<Longrightarrow> call_image (new2 ! k) = PIL_image \<Longrightarrow>
              generate_content E (calls st1 @ take (Suc k) new2) = Raises e \<Longrightarrow>
              str_in ''quota'' (lower e) \<or> str_in ''limit'' (lower e) \<Longrightarrow>
              Suc k = length new2 \<and> r = None \<and> api_error st' = Some (quota_exceeded_text e)"
      using Cons.IH[OF rest] by blast
    have a: "calls st' = calls st @ (new1 @ new2)" using n1 n2 by simp
    have b: "Suc k = length (new1 @ new2) \<and> r = Some t"
      if k: "k < length (new1 @ new2)"
        and g: "generate_content E (calls st @ take (Suc k) (new1 @ new2)) = Text t" for k t
    proof (cases "k < length new1")
      case True
      then have tk: "take (Suc k) (new1 @ new2) = take (Suc k) new1" by simp
      have "generate_content E (calls st @ take (Suc k) new1) = Text t"
        using g unfolding tk .
      then have "f = Return t" using t1[OF True] by blast
      then show ?thesis using Continue by simp
    next
      case False
      define j where "j = k - length new1"
      have j: "j < length new2" "k = length new1 + j" using False k by (simp_all add: j_def)
      have tk: "take (Suc k) (new1 @ new2) = new1 @ take (Suc j) new2" using j by simp
      have "generate_content E (calls st1 @ take (Suc j) new2) = Text t"
        using g unfolding tk n1 by simp
      then have "Suc j = length new2 \<and> r = Some t" using t2[OF j(1)] by blast
      then show ?thesis using j by simp
    qed
    have d: "Suc k = length (new1 @ new2) \<and> r = None \<and>
             api_error st' = Some (quota_exceeded_text e)"
      if k: "k < length (new1 @ new2)"
        and i: "call_image ((new1 @ new2) ! k) = PIL_image"
        and g: "generate_content E (calls st @ take (Suc k) (new1 @ new2)) = Raises e"
        and q: "str_in ''quota'' (lower e) \<or> str_in ''limit'' (lower e)" for k e
    proof (cases "k < length new1")
      case True
      then have tk: "take (Suc k) (new1 @ new2) = take (Suc k) new1"
        and nk: "(new1 @ new2) ! k = new1 ! k" by (simp_all add: nth_append)
      have "generate_content E (calls st @ take (Suc k) new1) = Raises e"
        using g unfolding tk .
      moreover have "call_image (new1 ! k) = PIL_image" using i unfolding nk .
      ultimately have "f = Break" using q1[OF True _ _ q] by blast
      then show ?thesis using Continue by simp
    next
      case False
      define j where "j = k - length new1"
      have j: "j < length new2" "k = length new1 + j" using False k by (simp_all add: j_def)
      have tk: "take (Suc k) (new1 @ new2) = new1 @ take (Suc j) new2" using j by simp
      have "generate_content E (calls st1 @ take (Suc j) new2) = Raises e"
        using g unfolding tk n1 by simp
      moreover have "call_image (new2 ! j) = PIL_image" using i j by (simp add: nth_append)
      ultimately have "Suc j = length new2 \<and> r = None \<and>
             api_error st' = Some (quota_exceeded_text e)"
        using q2[OF j(1) _ _ q] by blast
      then show ?thesis using j by simp
    qed
    show ?thesis using a b d by (intro exI[of _ "new1 @ new2"]) blast
  qed
qed

lemma analyze_image_loop:
  assumes "classify img prompt file_name = (is_seq, reason)"
      and "try_models E is_seq prompt model_names_to_try \<lparr>api_error = None, calls = []\<rparr> = (r, st)"
  shows "attempted (analyze_image E img prompt file_name) = calls st"
    and "r = Some t \<Longrightarrow> returned (analyze_image E img prompt file_name) = Some t"
    and "r = Some t \<Longrightarrow> shown (analyze_image E img prompt file_name) = []"
    and "r = None \<Longrightarrow> \<exists>rest. shown (analyze_image E img prompt file_name) =
           fallback_messages is_seq reason (api_error st) @ rest"
    and "r = None \<Longrightarrow> \<not> is_seq \<Longrightarrow>
           returned (analyze_image E img prompt file_name) = Some (basic_analysis img file_name)"
  using assms
  by (auto simp: analyze_image_def Let_def split: prod.splits option.splits)

lemma quota_text_is_quota_error: "is_quota_error (Some (quota_exceeded_text e))"
proof -
  have "str_in ''quota''
          (lower ''Google AI API quota exceeded. The free tier limit has been reached. Please:\<newline>'')"
    by code_simp
  then have "str_in ''quota'' (lower (quota_exceeded_text e))"
    unfolding quota_exceeded_text_def lower_append by (rule str_in_appendI1)
  moreover have "quota_exceeded_text e \<noteq> []" by (simp add: quota_exceeded_text_def)
  ultimately show ?thesis by (simp add: is_quota_error_def)
qed

lemma fallback_messages_quota:
  "prefix quota_messages (fallback_messages is_seq reason (Some (quota_exceeded_text e)) @ rest)"
  using quota_text_is_quota_error[of e] by (simp add: fallback_messages_def)

lemma run_trace:
  obtains is_seq reason r st where
    "classify img prompt file_name = (is_seq, reason)"
    "try_models E is_seq prompt model_names_to_try \<lparr>api_error = None, calls = []\<rparr> = (r, st)"
    "attempted (analyze_image E img prompt file_name) = calls st"
    "\<And>k t. k < length (calls st) \<Longrightarrow>
        generate_content E (take (Suc k) (calls st)) = Text t \<Longrightarrow>
        Suc k = length (calls st) \<and> r = Some t"
    "\<And>k e. k < length (calls st) \<Longrightarrow> call_image (calls st ! k) = PIL_image \<Longrightarrow>
        generate_content E (take (Suc k) (calls st)) = Raises e \<Longrightarrow>
        str_in ''quota'' (lower e) \<or> str_in ''limit'' (lower e) \<Longrightarrow>
        Suc k = length (calls st) \<and> r = None \<and> api_error st = Some (quota_exceeded_text e)"
proof -
  obtain is_seq reason where c: "classify img prompt file_name = (is_seq, reason)"
    by (cases "classify img prompt file_name")
  obtain r st where
    t: "try_models E is_seq prompt model_names_to_try \<lparr>api_error = None, calls = []\<rparr> = (r, st)"
    by (cases "try_models E is_seq prompt model_names_to_try \<lparr>api_error = None, calls = []\<rparr>")
  obtain new where n: "calls st = calls \<lparr>api_error = None, calls = []\<rparr> @ new"
    and a: "\<And>k t. k < length new \<Longrightarrow>
              generate_content E (calls \<lparr>api_error = None, calls = []\<rparr> @ take (Suc k) new) = Text t \<Longrightarrow>
              Suc k = length new \<and> r = Some t"
    and b: "\<And>k e. k < length new \<Longrightarrow> call_image (new ! k) = PIL_image \<Longrightarrow>
              generate_content E (calls \<lparr>api_error = None, calls = []\<rparr> @ take (Suc k) new) = Raises e \<Longrightarrow>
              str_in ''quota'' (lower e) \<or> str_in ''limit'' (lower e) \<Longrightarrow>
              Suc k = length new \<and> r = None \<and> api_error st = Some (quota_exceeded_text e)"
    using try_models_trace[OF t] by blast
  have n': "new = calls st" using n by simp
  show ?thesis
  proof (rule that[OF c t analyze_image_loop(1)[OF c t]])
    show "Suc k = length (calls st) \<and> r = Some t"
      if "k < length (calls st)" "generate_content E (take (Suc k) (calls st)) = Text t" for k t
      using a[of k t] that unfolding n' by simp
    show "Suc k = length (calls st) \<and> r = None \<and> api_error st = Some (quota_exceeded_text e)"
      if "k < length (calls st)" "call_image (calls st ! k) = PIL_image"
        "generate_content E (take (Suc k) (calls st)) = Raises e"
        "str_in ''quota'' (lower e) \<or> str_in ''limit'' (lower e)" for k e
      using b[of k e] that unfolding n' by simp
  qed
qed

text \<open>
  C1. In every run, as soon as a call to a candidate model, with the image object or with
  the PNG bytes, is answered with a text, that call is the last call of the run (no later
  candidate is attempted, neither with the image object nor with the bytes) and
  \<open>analyze_image\<close> returns that text.
\<close>

theorem first_text_is_returned:
  assumes "i < length (attempted (analyze_image E img prompt file_name))"
      and "generate_content E (take (Suc i) (attempted (analyze_image E img prompt file_name))) =
             Text t"
  shows "Suc i = length (attempted (analyze_image E img prompt file_name)) \<and>
         returned (analyze_image E img prompt file_name) = Some t"
proof -
  obtain is_seq reason r st where
    c: "classify img prompt file_name = (is_seq, reason)" and
    l: "try_models E is_seq prompt model_names_to_try \<lparr>api_error = None, calls = []\<rparr> = (r, st)" and
    a: "attempted (analyze_image E img prompt file_name) = calls st" and
    t: "\<And>k t. k < length (calls st) \<Longrightarrow>
        generate_content E (take (Suc k) (calls st)) = Text t \<Longrightarrow>
        Suc k = length (calls st) \<and> r = Some t"
    by (rule run_trace[of img prompt file_name E]) blast
  have "Suc i = length (calls st) \<and> r = Some t" using t[of i t] assms unfolding a by simp
  then show ?thesis using a analyze_image_loop(2)[OF c l] by simp
qed

text \<open>
  An instance: the first two candidates fail with 404 on both attempts, the third answers.
  Five calls are made, none to the three remaining candidates.
\<close>

theorem first_text_is_returned_witness:
  "4 < length (attempted (analyze_image fail_404_then_text uml_image ''Describe this image''
                 (Some ''uml.png''))) \<and>
   generate_content fail_404_then_text
     (take 5 (attempted (analyze_image fail_404_then_text uml_image ''Describe this image''
                 (Some ''uml.png'')))) = Text ''A cat on a sofa.'' \<and>
   length (attempted (analyze_image fail_404_then_text uml_image ''Describe this image''
                 (Some ''uml.png''))) = 5 \<and>
   map call_model (attempted (analyze_image fail_404_then_text uml_image ''Describe this image''
                 (Some ''uml.png''))) =
     [''models/gemini-2.5-flash'', ''models/gemini-2.5-flash'', ''models/gemini-2.5-pro'',
      ''models/gemini-2.5-pro'', ''models/gemini-2.0-flash-exp''] \<and>
   returned (analyze_image fail_404_then_text uml_image ''Describe this image''
                 (Some ''uml.png'')) = Some ''A cat on a sofa.''"
proof -
  have c: "classify uml_image ''Describe this image'' (Some ''uml.png'') =
             (True, Some ''Filename suggests sequence diagram'')"
    by code_simp
  have l: "try_models fail_404_then_text True ''Describe this image'' model_names_to_try
       \<lparr>api_error = None, calls = []\<rparr> =
     (Some ''A cat on a sofa.'',
      \<lparr>api_error = Some (not_available_404_text ''models/gemini-2.5-pro''),
       calls =
         [\<lparr>call_model = ''models/gemini-2.5-flash'', call_prompt = specialized_prompt,
             call_image = PIL_image\<rparr>,
          \<lparr>call_model = ''models/gemini-2.5-flash'', call_prompt = specialized_prompt,
             call_image = PNG_bytes\<rparr>,
          \<lparr>call_model = ''models/gemini-2.5-pro'', call_prompt = specialized_prompt,
             call_image = PIL_image\<rparr>,
          \<lparr>call_model = ''models/gemini-2.5-pro'', call_prompt = specialized_prompt,
             call_image = PNG_bytes\<rparr>,
          \<lparr>call_model = ''models/gemini-2.0-flash-exp'', call_prompt = specialized_prompt,
             call_image = PIL_image\<rparr>]\<rparr>)"
    by code_simp
  note a = analyze_image_loop(1)[OF c l]
  have h1: "4 < length (attempted (analyze_image fail_404_then_text uml_image
              ''Describe this image'' (Some ''uml.png'')))"
    unfolding a by simp
  have h2: "generate_content fail_404_then_text
     (take (Suc 4) (attempted (analyze_image fail_404_then_text uml_image ''Describe this image''
                 (Some ''uml.png'')))) = Text ''A cat on a sofa.''"
    unfolding a by (simp add: fail_404_then_text_def)
  have m: "map call_model (attempted (analyze_image fail_404_then_text uml_image
              ''Describe this image'' (Some ''uml.png''))) =
     [''models/gemini-2.5-flash'', ''models/gemini-2.5-flash'', ''models/gemini-2.5-pro'',
      ''models/gemini-2.5-pro'', ''models/gemini-2.0-flash-exp'']"
    unfolding a by simp
  show ?thesis using h1 h2 m first_text_is_returned[OF h1 h2] by simp
qed

text \<open>
  C2. In every run, if the first attempt for a candidate (the call with the image object)
  fails with a message whose lowercase form contains \<open>quota\<close> or \<open>limit\<close>, that call is
  the last call of the run: the attempt with the PNG bytes is skipped and no later
  candidate is attempted. The outcome is shown as quota exceeded: the messages of the run
  start with the quota messages.
\<close>

theorem quota_on_first_attempt_aborts:
  assumes "i < length (attempted (analyze_image E img prompt file_name))"
      and "call_image (attempted (analyze_image E img prompt file_name) ! i) = PIL_image"
      and "generate_content E (take (Suc i) (attempted (analyze_image E img prompt file_name))) =
             Raises e"
      and "str_in ''quota'' (lower e) \<or> str_in ''limit'' (lower e)"
  shows "Suc i = length (attempted (analyze_image E img prompt file_name)) \<and>
         prefix quota_messages (shown (analyze_image E img prompt file_name))"
proof -
  obtain is_seq reason r st where
    c: "classify img prompt file_name = (is_seq, reason)" and
    l: "try_models E is_seq prompt model_names_to_try \<lparr>api_error = None, calls = []\<rparr> = (r, st)" and
    a: "attempted (analyze_image E img prompt file_name) = calls st" and
    q: "\<And>k e. k < length (calls st) \<Longrightarrow> call_image (calls st ! k) = PIL_image \<Longrightarrow>
        generate_content E (take (Suc k) (calls st)) = Raises e \<Longrightarrow>
        str_in ''quota'' (lower e) \<or> str_in ''limit'' (lower e) \<Longrightarrow>
        Suc k = length (calls st) \<and> r = None \<and> api_error st = Some (quota_exceeded_text e)"
    by (rule run_trace[of img prompt file_name E]) blast
  have *: "Suc i = length (calls st) \<and> r = None \<and> api_error st = Some (quota_exceeded_text e)"
    using q[of i e] assms unfolding a by simp
  then obtain rest where "shown (analyze_image E img prompt file_name) =
      fallback_messages is_seq reason (Some (quota_exceeded_text e)) @ rest"
    using analyze_image_loop(4)[OF c l] by auto
  then have "prefix quota_messages (shown (analyze_image E img prompt file_name))"
    using fallback_messages_quota by simp
  then show ?thesis using * a by simp
qed

text \<open>
  An instance: the first candidate fails with a quota error, and the service would have
  answered the second call. One call is made.
\<close>

theorem quota_on_first_attempt_aborts_witness:
  "0 < length (attempted (analyze_image quota_then_text uml_image ''Describe this image''
                 (Some ''uml.png''))) \<and>
   call_image (attempted (analyze_image quota_then_text uml_image ''Describe this image''
                 (Some ''uml.png'')) ! 0) = PIL_image \<and>
   generate_content quota_then_text
     (take 1 (attempted (analyze_image quota_then_text uml_image ''Describe this image''
                 (Some ''uml.png'')))) = Raises ''429 Quota exceeded'' \<and>
   str_in ''quota'' (lower ''429 Quota exceeded'') \<and>
   length (attempted (analyze_image quota_then_text uml_image ''Describe this image''
                 (Some ''uml.png''))) = 1 \<and>
   prefix quota_messages
     (shown (analyze_image quota_then_text uml_image ''Describe this image'' (Some ''uml.png'')))"
proof -
  have c: "classify uml_image ''Describe this image'' (Some ''uml.png'') =
             (True, Some ''Filename suggests sequence diagram'')"
    by code_simp
  have l: "try_models quota_then_text True ''Describe this image'' model_names_to_try
       \<lparr>api_error = None, calls = []\<rparr> =
     (None,
      \<lparr>api_error = Some (quota_exceeded_text ''429 Quota exceeded''),
       calls =
         [\<lparr>call_model = ''models/gemini-2.5-flash'', call_prompt = specialized_prompt,
             call_image = PIL_image\<rparr>]\<rparr>)"
    by code_simp
  note a = analyze_image_loop(1)[OF c l]
  have h1: "0 < length (attempted (analyze_image quota_then_text uml_image
              ''Describe this image'' (Some ''uml.png'')))"
    unfolding a by simp
  have h2: "call_image (attempted (analyze_image quota_then_text uml_image
              ''Describe this image'' (Some ''uml.png'')) ! 0) = PIL_image"
    unfolding a by simp
  have h3: "generate_content quota_then_text
     (take (Suc 0) (attempted (analyze_image quota_then_text uml_image ''Describe this image''
                 (Some ''uml.png'')))) = Raises ''429 Quota exceeded''"
    unfolding a by (simp add: quota_then_text_def)
  have h4: "str_in ''quota'' (lower ''429 Quota exceeded'')" by code_simp
  have h4': "str_in ''quota'' (lower ''429 Quota exceeded'')
             \<or> str_in ''limit'' (lower ''429 Quota exceeded'')"
    using h4 by simp
  show ?thesis using h1 h2 h3 h4 quota_on_first_attempt_aborts[OF h1 h2 h3 h4'] by simp
qed

text \<open>
  C3. The handler of the second attempt has no case for \<open>permission\<close> and \<open>forbidden\<close>.
  When every attempt with the image object fails with an internal error and every attempt
  with the PNG bytes fails with \<open>403 Permission denied\<close>, the loop goes on after the
  second attempt of the first candidate and calls all six candidates twice. The same
  message on a first attempt ends the loop after one call.
\<close>

theorem permission_on_second_attempt_continues:
  "generate_content permission_on_bytes
     (take 2 (attempted (analyze_image permission_on_bytes uml_image ''Describe this image''
                 (Some ''uml.png'')))) = Raises ''403 Permission denied'' \<and>
   call_image (attempted (analyze_image permission_on_bytes uml_image ''Describe this image''
                 (Some ''uml.png'')) ! 1) = PNG_bytes \<and>
   str_in ''permission'' (lower ''403 Permission denied'') \<and>
   map call_model (attempted (analyze_image permission_on_bytes uml_image
       ''Describe this image'' (Some ''uml.png''))) =
     [''models/gemini-2.5-flash'', ''models/gemini-2.5-flash'', ''models/gemini-2.5-pro'',
      ''models/gemini-2.5-pro'', ''models/gemini-2.0-flash-exp'', ''models/gemini-2.0-flash-exp'',
      ''models/gemini-2.0-flash'', ''models/gemini-2.0-flash'', ''models/gemini-flash-latest'',
      ''models/gemini-flash-latest'', ''models/gemini-pro-latest'', ''models/gemini-pro-latest''] \<and>
   map call_model (attempted (analyze_image always_permission_denied uml_image
       ''Describe this image'' (Some ''uml.png''))) = [''models/gemini-2.5-flash'']"
proof -
  have c: "classify uml_image ''Describe this image'' (Some ''uml.png'') =
             (True, Some ''Filename suggests sequence diagram'')"
    by code_simp
  obtain r st where l: "try_models permission_on_bytes True ''Describe this image''
       model_names_to_try \<lparr>api_error = None, calls = []\<rparr> = (r, st)"
    by (cases "try_models permission_on_bytes True ''Describe this image''
       model_names_to_try \<lparr>api_error = None, calls = []\<rparr>")
  have "calls (snd (try_models permission_on_bytes True ''Describe this image''
       model_names_to_try \<lparr>api_error = None, calls = []\<rparr>)) =
     [\<lparr>call_model = ''models/gemini-2.5-flash'', call_prompt = specialized_prompt, call_image = PIL_image\<rparr>,
      \<lparr>call_model = ''models/gemini-2.5-flash'', call_prompt = specialized_prompt, call_image = PNG_bytes\<rparr>,
      \<lparr>call_model = ''models/gemini-2.5-pro'', call_prompt = specialized_prompt, call_image = PIL_image\<rparr>,
      \<lparr>call_model = ''models/gemini-2.5-pro'', call_prompt = specialized_prompt, call_image = PNG_bytes\<rparr>,
      \<lparr>call_model = ''models/gemini-2.0-flash-exp'', call_prompt = specialized_prompt, call_image = PIL_image\<rparr>,
      \<lparr>call_model = ''models/gemini-2.0-flash-exp'', call_prompt = specialized_prompt, call_image = PNG_bytes\<rparr>,
      \<lparr>call_model = ''models/gemini-2.0-flash'', call_prompt = specialized_prompt, call_image = PIL_image\<rparr>,
      \<lparr>call_model = ''models/gemini-2.0-flash'', call_prompt = specialized_prompt, call_image = PNG_bytes\<rparr>,
      \<lparr>call_model = ''models/gemini-flash-latest'', call_prompt = specialized_prompt, call_image = PIL_image\<rparr>,
      \<lparr>call_model = ''models/gemini-flash-latest'', call_prompt = specialized_prompt, call_image = PNG_bytes\<rparr>,
      \<lparr>call_model = ''models/gemini-pro-latest'', call_prompt = specialized_prompt, call_image = PIL_image\<rparr>,
      \<lparr>call_model = ''models/gemini-pro-latest'', call_prompt = specialized_prompt, call_image = PNG_bytes\<rparr>]"
    by code_simp
  then have a: "attempted (analyze_image permission_on_bytes uml_image ''Describe this image''
                 (Some ''uml.png'')) =
     [\<lparr>call_model = ''models/gemini-2.5-flash'', call_prompt = specialized_prompt, call_image = PIL_image\<rparr>,
      \<lparr>call_model = ''models/gemini-2.5-flash'', call_prompt = specialized_prompt, call_image = PNG_bytes\<rparr>,
      \<lparr>call_model = ''models/gemini-2.5-pro'', call_prompt = specialized_prompt, call_image = PIL_image\<rparr>,
      \<lparr>call_model = ''models/gemini-2.5-pro'', call_prompt = specialized_prompt, call_image = PNG_bytes\<rparr>,
      \<lparr>call_model = ''models/gemini-2.0-flash-exp'', call_prompt = specialized_prompt, call_image = PIL_image\<rparr>,
      \<lparr>call_model = ''models/gemini-2.0-flash-exp'', call_prompt = specialized_prompt, call_image = PNG_bytes\<rparr>,
      \<lparr>call_model = ''models/gemini-2.0-flash'', call_prompt = specialized_prompt, call_image = PIL_image\<rparr>,
      \<lparr>call_model = ''models/gemini-2.0-flash'', call_prompt = specialized_prompt, call_image = PNG_bytes\<rparr>,
      \<lparr>call_model = ''models/gemini-flash-latest'', call_prompt = specialized_prompt, call_image = PIL_image\<rparr>,
      \<lparr>call_model = ''models/gemini-flash-latest'', call_prompt = specialized_prompt, call_image = PNG_bytes\<rparr>,
      \<lparr>call_model = ''models/gemini-pro-latest'', call_prompt = specialized_prompt, call_image = PIL_image\<rparr>,
      \<lparr>call_model = ''models/gemini-pro-latest'', call_prompt = specialized_prompt, call_image = PNG_bytes\<rparr>]"
    using analyze_image_loop(1)[OF c l] l by simp
  have l': "try_models always_permission_denied True ''Describe this image''
       model_names_to_try \<lparr>api_error = None, calls = []\<rparr> =
     (None,
      \<lparr>api_error = Some permission_denied_text,
       calls =
         [\<lparr>call_model = ''models/gemini-2.5-flash'', call_prompt = specialized_prompt,
             call_image = PIL_image\<rparr>]\<rparr>)"
    by code_simp
  have b: "map call_model (attempted (analyze_image always_permission_denied uml_image
       ''Describe this image'' (Some ''uml.png''))) = [''models/gemini-2.5-flash'']"
    unfolding analyze_image_loop(1)[OF c l'] by simp
  have p: "str_in ''permission'' (lower ''403 Permission denied'')" by code_simp
  show ?thesis unfolding a b using p by (simp add: permission_on_bytes_def)
qed


section \<open>Determinism of the classifier and of the generic report\<close>

text \<open>
  Two images that agree in size, mode and format get the same report exactly when the same
  bit depth is printed for them; the pixels play no part.
\<close>

lemma basic_analysis_bits:
  assumes "img_size a = img_size b" "mode a = mode b" "format a = format b"
  shows "(basic_analysis a file_name = basic_analysis b file_name) = (bit_depth a = bit_depth b)"
proof -
  have r: "recommendations a = recommendations b"
    unfolding recommendations_def assms by (rule refl)
  have c: "color_info a = color_info b" unfolding color_info_def assms by (rule refl)
  have f: "format_or_unknown a = format_or_unknown b"
    unfolding format_or_unknown_def assms by (rule refl)
  have k: "compression a = compression b" unfolding compression_def assms by (rule refl)
  have p: "perfect_for a = perfect_for b" unfolding perfect_for_def assms by (rule refl)
  show ?thesis
    unfolding basic_analysis_def Let_def case_prod_beta r c f k p assms
    by simp
qed

lemma from_main_bits:
  assumes "from_main reader_bits a" "from_main reader_bits b" "format a = format b"
  shows "bits a = bits b"
  using assms by (cases "format b") (simp_all add: from_main_def)

text \<open>
  C9. The classifier and the fallback reporter are deterministic pure functions. Two runs
  with the same file name on images of the same width and height, whatever their modes,
  formats and pixels, get the same classification. Two runs with the same file name on
  images that \<open>main\<close> can pass and that have the same width, height, color mode and
  format, whatever their pixels, get the same report text, byte for byte; and when two
  calls of \<open>analyze_image\<close> on such images end in the generic report, they return
  identical texts, whatever the two prompts were and however the remote service failed in
  each run.
\<close>

theorem reports_are_deterministic:
  "(img_size a = img_size b \<longrightarrow>
      detect_sequence_diagram a file_name = detect_sequence_diagram b file_name) \<and>
   (from_main reader_bits a \<and> from_main reader_bits b \<and>
    img_size a = img_size b \<and> mode a = mode b \<and> format a = format b \<longrightarrow>
      basic_analysis a file_name = basic_analysis b file_name \<and>
      (classify a prompt1 file_name = (False, reason1) \<and>
       classify b prompt2 file_name = (False, reason2) \<and>
       fst (try_models E1 False prompt1 model_names_to_try \<lparr>api_error = None, calls = []\<rparr>) = None \<and>
       fst (try_models E2 False prompt2 model_names_to_try \<lparr>api_error = None, calls = []\<rparr>) = None
       \<longrightarrow> returned (analyze_image E1 a prompt1 file_name) =
           returned (analyze_image E2 b prompt2 file_name)))"
proof -
  have 1: "detect_sequence_diagram a file_name = detect_sequence_diagram b file_name"
    if "img_size a = img_size b"
    using that by (simp add: detect_sequence_diagram_def)
  have 2: "basic_analysis a file_name = basic_analysis b file_name"
    if "from_main reader_bits a" "from_main reader_bits b"
      "img_size a = img_size b" "mode a = mode b" "format a = format b"
  proof -
    have "bits a = bits b" using that(1,2,5) by (rule from_main_bits)
    then have "bit_depth a = bit_depth b" by (simp add: bit_depth_def)
    then show ?thesis using basic_analysis_bits[OF that(3,4,5)] by simp
  qed
  have 3: "returned (analyze_image E img prompt file_name) = Some (basic_analysis img file_name)"
    if c: "classify img prompt file_name = (False, reason)"
      and l: "fst (try_models E False prompt model_names_to_try
                \<lparr>api_error = None, calls = []\<rparr>) = None"
    for E img prompt reason
  proof -
    obtain st where "try_models E False prompt model_names_to_try
                \<lparr>api_error = None, calls = []\<rparr> = (None, st)"
      using l by (cases "try_models E False prompt model_names_to_try
                \<lparr>api_error = None, calls = []\<rparr>") simp
    then show ?thesis using analyze_image_loop(5)[OF c] by simp
  qed
  show ?thesis using 1 2 3 by (metis (no_types))
qed

text \<open>
  An instance, with a library whose JPEG reader sets \<open>bits\<close> to 8 and whose other readers
  do not set it: two images of the same size but different modes, formats and pixels are
  classified alike, and two runs on JPEG images that differ in their pixels, with different
  prompts and differently failing services, return the same report.
\<close>

theorem reports_are_deterministic_witness:
  "img_size photo_image =
     img_size (photo_image\<lparr>mode := ''L'', format := None, bits := None, pixel_data := [7]\<rparr>) \<and>
   detect_sequence_diagram photo_image (Some ''photo.jpg'') =
     detect_sequence_diagram
       (photo_image\<lparr>mode := ''L'', format := None, bits := None, pixel_data := [7]\<rparr>)
       (Some ''photo.jpg'') \<and>
   from_main (\<lambda>f. if f = ''JPEG'' then Some 8 else None) photo_image \<and>
   from_main (\<lambda>f. if f = ''JPEG'' then Some 8 else None) (photo_image\<lparr>pixel_data := [255, 0, 0]\<rparr>) \<and>
   photo_image \<noteq> photo_image\<lparr>pixel_data := [255, 0, 0]\<rparr> \<and>
   classify photo_image ''Describe this image'' (Some ''photo.jpg'') = (False, None) \<and>
   classify (photo_image\<lparr>pixel_data := [255, 0, 0]\<rparr>) ''What is the main subject of this image?''
     (Some ''photo.jpg'') = (False, None) \<and>
   fst (try_models always_404 False ''Describe this image'' model_names_to_try
          \<lparr>api_error = None, calls = []\<rparr>) = None \<and>
   fst (try_models permission_on_bytes False ''What is the main subject of this image?''
          model_names_to_try \<lparr>api_error = None, calls = []\<rparr>) = None \<and>
   basic_analysis photo_image (Some ''photo.jpg'') =
     basic_analysis (photo_image\<lparr>pixel_data := [255, 0, 0]\<rparr>) (Some ''photo.jpg'') \<and>
   returned (analyze_image always_404 photo_image ''Describe this image'' (Some ''photo.jpg'')) =
     returned (analyze_image permission_on_bytes (photo_image\<lparr>pixel_data := [255, 0, 0]\<rparr>)
                 ''What is the main subject of this image?'' (Some ''photo.jpg''))"
proof -
  have s: "img_size photo_image =
     img_size (photo_image\<lparr>mode := ''L'', format := None, bits := None, pixel_data := [7]\<rparr>)"
    by simp
  have d: "detect_sequence_diagram photo_image (Some ''photo.jpg'') =
     detect_sequence_diagram
       (photo_image\<lparr>mode := ''L'', format := None, bits := None, pixel_data := [7]\<rparr>)
       (Some ''photo.jpg'')"
    using s reports_are_deterministic[where a = photo_image
        and b = "photo_image\<lparr>mode := ''L'', format := None, bits := None, pixel_data := [7]\<rparr>"
        and file_name = "Some ''photo.jpg''"]
    by blast
  have m1: "from_main (\<lambda>f. if f = ''JPEG'' then Some 8 else None) photo_image"
    by (simp add: from_main_def photo_image_def)
  have m2: "from_main (\<lambda>f. if f = ''JPEG'' then Some 8 else None)
              (photo_image\<lparr>pixel_data := [255, 0, 0]\<rparr>)"
    by (simp add: from_main_def photo_image_def)
  have ne: "photo_image \<noteq> photo_image\<lparr>pixel_data := [255, 0, 0]\<rparr>"
    by (simp add: photo_image_def)
  have c1: "classify photo_image ''Describe this image'' (Some ''photo.jpg'') = (False, None)"
    by code_simp
  have c2: "classify (photo_image\<lparr>pixel_data := [255, 0, 0]\<rparr>)
              ''What is the main subject of this image?'' (Some ''photo.jpg'') = (False, None)"
    by code_simp
  have l1: "fst (try_models always_404 False ''Describe this image'' model_names_to_try
          \<lparr>api_error = None, calls = []\<rparr>) = None"
    by code_simp
  have l2: "fst (try_models permission_on_bytes False ''What is the main subject of this image?''
          model_names_to_try \<lparr>api_error = None, calls = []\<rparr>) = None"
    by code_simp
  have e: "img_size photo_image = img_size (photo_image\<lparr>pixel_data := [255, 0, 0]\<rparr>) \<and>
           mode photo_image = mode (photo_image\<lparr>pixel_data := [255, 0, 0]\<rparr>) \<and>
           format photo_image = format (photo_image\<lparr>pixel_data := [255, 0, 0]\<rparr>)"
    by simp
  note t = reports_are_deterministic[where a = photo_image
        and b = "photo_image\<lparr>pixel_data := [255, 0, 0]\<rparr>"
        and reader_bits = "\<lambda>f. if f = ''JPEG'' then Some 8 else None"
        and file_name = "Some ''photo.jpg''" and ?prompt1.0 = "''Describe this image''"
        and ?prompt2.0 = "''What is the main subject of this image?''"
        and ?reason1.0 = None and ?reason2.0 = None
        and ?E1.0 = always_404 and ?E2.0 = permission_on_bytes]
  have b: "basic_analysis photo_image (Some ''photo.jpg'') =
     basic_analysis (photo_image\<lparr>pixel_data := [255, 0, 0]\<rparr>) (Some ''photo.jpg'')"
    using m1 m2 e t by blast
  have r: "returned (analyze_image always_404 photo_image ''Describe this image''
                 (Some ''photo.jpg'')) =
     returned (analyze_image permission_on_bytes (photo_image\<lparr>pixel_data := [255, 0, 0]\<rparr>)
                 ''What is the main subject of this image?'' (Some ''photo.jpg''))"
    using m1 m2 e c1 c2 l1 l2 t by blast
  show ?thesis by (intro conjI s d m1 m2 ne c1 c2 l1 l2 b r)
qed

end
